theory Spec2Isabelle
  imports Main "HOL-Library.AList"
begin

section \<open>Python values and exceptions\<close>

text \<open>
  The pipeline of \<^verbatim>\<open>daos/infer_equations_llama_mpi.py\<close> is modelled function by
  function. A Python \<^verbatim>\<open>str\<close> is a \<^typ>\<open>string\<close>, one \<^typ>\<open>char\<close> per code
  point, so the texts of the model are those whose code points are below 256; a
  Python \<^verbatim>\<open>int\<close> is an \<^typ>\<open>int\<close>. A value
  decoded from JSON is a \<^verbatim>\<open>json\<close>; numbers with a fraction or an exponent
  (Python floats) are outside the model. A \<^verbatim>\<open>JObj\<close> lists the items of a Python
  dict, looked up with \<^const>\<open>map_of\<close>.
\<close>

datatype json =
    JNull
  | JBool bool
  | JInt int
  | JStr string
  | JArr "json list"
  | JObj "(string \<times> json) list"

text \<open>
  Every \<^verbatim>\<open>RuntimeError\<close> the pipeline raises is built from an f-string; the
  constructor names the f-string and carries the values interpolated into it.
\<close>

datatype payload = PJson json | PText string

datatype runtime_msg =
    HttpErrorAfter int string nat string
  | StuckLoading int string nat
  | HttpStatus int int payload
  | BadResponseJson int string
  | UnexpectedSchema int json
  | Exhausted int

datatype py_error =
    ValueError string
  | TypeError
  | KeyError
  | IndexError
  | AttributeError
  | JSONDecodeError
  | ValidationError
  | RuntimeError runtime_msg

section \<open>Shard partitioner\<close>

text \<open>
  \<^verbatim>\<open>range(start, stop, step)\<close>: zero step raises \<^verbatim>\<open>ValueError\<close>; otherwise the
  length is computed first and element \<open>i\<close> is \<open>start + i * step\<close>.
\<close>

definition range_len :: "int \<Rightarrow> int \<Rightarrow> int \<Rightarrow> nat" where
  "range_len lo hi step = (if lo < hi then nat ((hi - lo - 1) div step + 1) else 0)"

definition py_range :: "int \<Rightarrow> int \<Rightarrow> int \<Rightarrow> py_error + int list" where
  "py_range start stop step =
     (if step = 0 then Inl (ValueError ''range() arg 3 must not be zero'')
      else if 0 < step then
        Inr (map (\<lambda>i. start + int i * step) [0..<range_len start stop step])
      else
        Inr (map (\<lambda>i. start + int i * step) [0..<range_len stop start (- step)]))"

text \<open>
  \<^verbatim>\<open>my_rows = list(range(world_rank + start_offset * world_size, total_rows, world_size))\<close>
\<close>

definition my_rows :: "int \<Rightarrow> int \<Rightarrow> int \<Rightarrow> int \<Rightarrow> py_error + int list" where
  "my_rows world_rank world_size start_offset total_rows =
     py_range (world_rank + start_offset * world_size) total_rows world_size"

section \<open>Strings\<close>

text \<open>Whitespace as \<^verbatim>\<open>str.strip\<close> and the regex class \<^verbatim>\<open>\s\<close> see it (code points below 256).\<close>

definition py_isspace :: "char \<Rightarrow> bool" where
  "py_isspace c = (of_char c \<in> {9, 10, 11, 12, 13, 28, 29, 30, 31, 32, 133, 160 :: nat})"

definition py_strip :: "string \<Rightarrow> string" where
  "py_strip s = rev (dropWhile py_isspace (rev (dropWhile py_isspace s)))"

definition py_rstrip_chars :: "string \<Rightarrow> string \<Rightarrow> string" where
  "py_rstrip_chars cs s = rev (dropWhile (\<lambda>c. c \<in> set cs) (rev s))"

definition starts_with :: "string \<Rightarrow> string \<Rightarrow> bool" where
  "starts_with p s = (take (length p) s = p)"

text \<open>\<^verbatim>\<open>needle in haystack\<close> for two strings.\<close>

fun str_contains :: "string \<Rightarrow> string \<Rightarrow> bool" where
  "str_contains needle [] = (needle = [])"
| "str_contains needle (c # cs) = (starts_with needle (c # cs) \<or> str_contains needle cs)"

text \<open>Decimal rendering of an integer, as \<^verbatim>\<open>str\<close>, an f-string and \<^verbatim>\<open>json.dumps\<close> print it.\<close>

definition digit_char :: "nat \<Rightarrow> char" where
  "digit_char d = ''0123456789'' ! d"

function show_nat :: "nat \<Rightarrow> string" where
  "show_nat n =
     (if n < 10 then [digit_char n]
      else show_nat (n div 10) @ [digit_char (n mod 10)])"
  by pat_completeness auto
termination
  by (relation "measure id") auto

declare show_nat.simps [simp del]

definition show_int :: "int \<Rightarrow> string" where
  "show_int i = (if i < 0 then CHR ''-'' # show_nat (nat (- i)) else show_nat (nat i))"

text \<open>
  \<^verbatim>\<open>katex_hygiene\<close>: \<^verbatim>\<open>re.sub(r"\\label\{[^}]*\}", "", s)\<close>, then \<^verbatim>\<open>.strip().rstrip(",")\<close>.
  A match starts at a backslash followed by \<^verbatim>\<open>label{\<close> when a closing brace follows
  somewhere; it runs to the first closing brace. The flag of \<open>strip_labels\<close> says
  that the scan is inside a match.
\<close>

definition label_at :: "string \<Rightarrow> bool" where
  "label_at s = (starts_with (CHR 0x5C # ''label{'') s \<and> CHR ''}'' \<in> set (drop 7 s))"

fun strip_labels :: "bool \<Rightarrow> string \<Rightarrow> string" where
  "strip_labels inside [] = []"
| "strip_labels True (c # cs) =
     (if c = CHR ''}'' then strip_labels False cs else strip_labels True cs)"
| "strip_labels False (c # cs) =
     (if label_at (c # cs) then strip_labels True cs else c # strip_labels False cs)"

definition katex_hygiene :: "string \<Rightarrow> string" where
  "katex_hygiene s = py_rstrip_chars '','' (py_strip (strip_labels False s))"

section \<open>JSON values as Python sees them\<close>

text \<open>\<^verbatim>\<open>d.get(key, default)\<close>: only a dict has the method.\<close>

definition py_get :: "json \<Rightarrow> string \<Rightarrow> json \<Rightarrow> py_error + json" where
  "py_get d k dflt =
     (case d of
        JObj kvs \<Rightarrow> (case map_of kvs k of None \<Rightarrow> Inr dflt | Some v \<Rightarrow> Inr v)
      | _ \<Rightarrow> Inl AttributeError)"

text \<open>\<^verbatim>\<open>d[key]\<close> with a string key, and \<^verbatim>\<open>d[0]\<close>.\<close>

definition py_item :: "json \<Rightarrow> string \<Rightarrow> py_error + json" where
  "py_item d k =
     (case d of
        JObj kvs \<Rightarrow> (case map_of kvs k of None \<Rightarrow> Inl KeyError | Some v \<Rightarrow> Inr v)
      | _ \<Rightarrow> Inl TypeError)"

definition py_item0 :: "json \<Rightarrow> py_error + json" where
  "py_item0 d =
     (case d of
        JArr xs \<Rightarrow> (case xs of [] \<Rightarrow> Inl IndexError | x # _ \<Rightarrow> Inr x)
      | JStr s \<Rightarrow> (case s of [] \<Rightarrow> Inl IndexError | c # _ \<Rightarrow> Inr (JStr [c]))
      | JObj kvs \<Rightarrow> Inl KeyError
      | _ \<Rightarrow> Inl TypeError)"

text \<open>\<^verbatim>\<open>needle in v\<close> for a string needle: substring of a string, element of a list,
  key of a dict; anything else is not iterable.\<close>

definition py_in :: "string \<Rightarrow> json \<Rightarrow> py_error + bool" where
  "py_in needle v =
     (case v of
        JStr s \<Rightarrow> Inr (str_contains needle s)
      | JArr xs \<Rightarrow> Inr (JStr needle \<in> set xs)
      | JObj kvs \<Rightarrow> Inr (needle \<in> set (map fst kvs))
      | _ \<Rightarrow> Inl TypeError)"

text \<open>Truth value of a decoded value (\<^verbatim>\<open>if parsed:\<close>).\<close>

definition py_truthy :: "json \<Rightarrow> bool" where
  "py_truthy v =
     (case v of
        JNull \<Rightarrow> False
      | JBool b \<Rightarrow> b
      | JInt n \<Rightarrow> n \<noteq> 0
      | JStr s \<Rightarrow> s \<noteq> []
      | JArr xs \<Rightarrow> xs \<noteq> []
      | JObj kvs \<Rightarrow> kvs \<noteq> [])"

section \<open>The JSON decoder\<close>

text \<open>
  \<^verbatim>\<open>json.loads\<close> belongs to the standard library. The functions of the pipeline
  take the decoder as an argument \<open>loads\<close> (\<open>None\<close> when it raises), and their
  theorems hold for every decoder. \<open>json_loads\<close> is a decoder for examples: it
  follows the library's scanner on objects, arrays, strings with the one-letter
  escapes, integers and the three literals, and answers \<open>None\<close> on everything
  else (\<^verbatim>\<open>\u\<close> escapes, numbers with a fraction or an exponent, \<^verbatim>\<open>NaN\<close>,
  \<^verbatim>\<open>Infinity\<close>). A repeated key keeps its first position and its last value, as
  \<^verbatim>\<open>dict(pairs)\<close> does.
\<close>

definition json_ws :: "char \<Rightarrow> bool" where
  "json_ws c = (c = CHR '' '' \<or> c = CHR 0x09 \<or> c = CHR 0x0A \<or> c = CHR 0x0D)"

definition skip_ws :: "string \<Rightarrow> string" where
  "skip_ws s = dropWhile json_ws s"

definition unescape :: "char \<Rightarrow> char option" where
  "unescape c =
     (if c = CHR 0x22 then Some (CHR 0x22)
      else if c = CHR 0x5C then Some (CHR 0x5C)
      else if c = CHR ''/'' then Some (CHR ''/'')
      else if c = CHR ''b'' then Some (CHR 0x08)
      else if c = CHR ''f'' then Some (CHR 0x0C)
      else if c = CHR ''n'' then Some (CHR 0x0A)
      else if c = CHR ''r'' then Some (CHR 0x0D)
      else if c = CHR ''t'' then Some (CHR 0x09)
      else None)"

fun scan_string :: "string \<Rightarrow> string \<Rightarrow> (string \<times> string) option" where
  "scan_string acc [] = None"
| "scan_string acc [c] = (if c = CHR 0x22 then Some (rev acc, []) else None)"
| "scan_string acc (c # e # cs) =
     (if c = CHR 0x22 then Some (rev acc, e # cs)
      else if c = CHR 0x5C then
        (case unescape e of None \<Rightarrow> None | Some ch \<Rightarrow> scan_string (ch # acc) cs)
      else if of_char c < (32 :: nat) then None
      else scan_string (c # acc) (e # cs))"

definition is_digit :: "char \<Rightarrow> bool" where
  "is_digit c = (48 \<le> (of_char c :: nat) \<and> (of_char c :: nat) \<le> 57)"

definition digits_value :: "string \<Rightarrow> int" where
  "digits_value ds = foldl (\<lambda>acc c. 10 * acc + int (of_char c - 48)) 0 ds"

definition scan_number :: "string \<Rightarrow> (json \<times> string) option" where
  "scan_number s =
     (let neg = starts_with ''-'' s;
          t = (if neg then drop 1 s else s);
          run = takeWhile is_digit t;
          ds = (if starts_with ''0'' run then ''0'' else run);
          rest = drop (length ds) t
      in if ds = [] then None
         else if starts_with ''.'' rest \<or> starts_with ''e'' rest \<or> starts_with ''E'' rest then None
         else Some (JInt (if neg then - digits_value ds else digits_value ds), rest))"

fun parse_value :: "nat \<Rightarrow> string \<Rightarrow> (json \<times> string) option"
  and parse_elems :: "nat \<Rightarrow> json list \<Rightarrow> string \<Rightarrow> (json \<times> string) option"
  and parse_members :: "nat \<Rightarrow> (string \<times> json) list \<Rightarrow> string \<Rightarrow> (json \<times> string) option"
where
  "parse_value 0 s = None"
| "parse_value (Suc n) [] = None"
| "parse_value (Suc n) (c # cs) =
     (if c = CHR 0x22 then
        (case scan_string [] cs of None \<Rightarrow> None | Some (str, rest) \<Rightarrow> Some (JStr str, rest))
      else if c = CHR ''{'' then
        (case skip_ws cs of
           [] \<Rightarrow> None
         | d # ds \<Rightarrow> if d = CHR ''}'' then Some (JObj [], ds) else parse_members n [] (d # ds))
      else if c = CHR ''['' then
        (case skip_ws cs of
           [] \<Rightarrow> None
         | d # ds \<Rightarrow> if d = CHR '']'' then Some (JArr [], ds) else parse_elems n [] (d # ds))
      else if starts_with ''true'' (c # cs) then Some (JBool True, drop 4 (c # cs))
      else if starts_with ''false'' (c # cs) then Some (JBool False, drop 5 (c # cs))
      else if starts_with ''null'' (c # cs) then Some (JNull, drop 4 (c # cs))
      else scan_number (c # cs))"
| "parse_elems 0 acc s = None"
| "parse_elems (Suc n) acc s =
     (case parse_value n s of
        None \<Rightarrow> None
      | Some (v, rest) \<Rightarrow>
          (case skip_ws rest of
             [] \<Rightarrow> None
           | d # ds \<Rightarrow>
               if d = CHR '','' then parse_elems n (v # acc) (skip_ws ds)
               else if d = CHR '']'' then Some (JArr (rev (v # acc)), ds)
               else None))"
| "parse_members 0 acc s = None"
| "parse_members (Suc n) acc [] = None"
| "parse_members (Suc n) acc (q # cs) =
     (if q \<noteq> CHR 0x22 then None
      else
        (case scan_string [] cs of
           None \<Rightarrow> None
         | Some (key, rest) \<Rightarrow>
             (case skip_ws rest of
                [] \<Rightarrow> None
              | col # r2 \<Rightarrow>
                  if col \<noteq> CHR '':'' then None
                  else
                    (case parse_value n (skip_ws r2) of
                       None \<Rightarrow> None
                     | Some (v, r3) \<Rightarrow>
                         (case skip_ws r3 of
                            [] \<Rightarrow> None
                          | d # ds \<Rightarrow>
                              if d = CHR '','' then
                                parse_members n (AList.update key v acc) (skip_ws ds)
                              else if d = CHR ''}'' then
                                Some (JObj (AList.update key v acc), ds)
                              else None)))))"

definition json_loads :: "string \<Rightarrow> json option" where
  "json_loads s =
     (case parse_value (2 * length s + 2) (skip_ws s) of
        None \<Rightarrow> None
      | Some (v, rest) \<Rightarrow> if skip_ws rest = [] then Some v else None)"

section \<open>The output schema and its validator\<close>

text \<open>
  \<^verbatim>\<open>PURE_MATH_JSON_SCHEMA\<close> uses three shapes of Draft 7 schema:
  \<^item> \<open>SString n\<close>: \<^verbatim>\<open>{"type": "string", "minLength": n}\<close> (\<open>n = 0\<close> when absent);
  \<^item> \<open>SArray s m\<close>: \<^verbatim>\<open>{"type": "array", "items": s, "maxItems": m}\<close>;
  \<^item> \<open>SObject req props\<close>: \<^verbatim>\<open>{"type": "object", "required": req,
    "additionalProperties": False, "properties": props}\<close>.
  \<open>conforms\<close> is \<^verbatim>\<open>Draft7Validator(schema).validate(v)\<close> not raising.
\<close>

datatype schema =
    SString nat
  | SArray schema "nat option"
  | SObject "string list" "(string \<times> schema) list"

fun conforms :: "schema \<Rightarrow> json \<Rightarrow> bool" where
  "conforms (SString n) v = (case v of JStr s \<Rightarrow> n \<le> length s | _ \<Rightarrow> False)"
| "conforms (SArray it mx) v =
     (case v of
        JArr xs \<Rightarrow>
          list_all (conforms it) xs \<and> (case mx of None \<Rightarrow> True | Some m \<Rightarrow> length xs \<le> m)
      | _ \<Rightarrow> False)"
| "conforms (SObject req props) v =
     (case v of
        JObj kvs \<Rightarrow>
          list_all (\<lambda>k. k \<in> set (map fst kvs)) req \<and>
          list_all (\<lambda>k. k \<in> set (map fst props)) (map fst kvs) \<and>
          list_all (\<lambda>(k, s). case map_of kvs k of None \<Rightarrow> True | Some x \<Rightarrow> conforms s x) props
      | _ \<Rightarrow> False)"

definition EQUIV_FORM_SCHEMA :: schema where
  "EQUIV_FORM_SCHEMA =
     SObject [''name_of_trafo'', ''assumptions'', ''latex'']
       [(''name_of_trafo'', SString 1),
        (''assumptions'', SArray (SString 0) None),
        (''latex'', SString 1)]"

definition PURE_MATH_JSON_SCHEMA :: schema where
  "PURE_MATH_JSON_SCHEMA =
     SObject [''input'', ''analysis'', ''equivalents'']
       [(''input'', SObject [''latex_raw''] [(''latex_raw'', SString 1)]),
        (''analysis'',
           SObject [''math_keywords'', ''math_sentence'', ''katex'']
             [(''math_keywords'', SArray (SString 0) (Some 10)),
              (''math_sentence'', SString 1),
              (''katex'', SString 1)]),
        (''equivalents'',
           SObject [''equiv_form_1'', ''equiv_form_2'']
             [(''equiv_form_1'', EQUIV_FORM_SCHEMA),
              (''equiv_form_2'', EQUIV_FORM_SCHEMA)])]"

section \<open>Output validator\<close>

text \<open>
  \<^verbatim>\<open>re.search(r"\{.*\}\s*$", s, flags=re.DOTALL)\<close>: the search takes the leftmost
  start, so a match begins at the first opening brace of \<open>s\<close>; it exists when the
  last character that is not whitespace is a closing brace after that opening brace,
  and then \<^verbatim>\<open>m.group(0)\<close> runs to the end of \<open>s\<close>.
\<close>

definition final_json_match :: "string \<Rightarrow> string option" where
  "final_json_match s =
     (case dropWhile (\<lambda>c. c \<noteq> CHR ''{'') s of
        [] \<Rightarrow> None
      | b # rest \<Rightarrow>
          (case dropWhile py_isspace (rev rest) of
             [] \<Rightarrow> None
           | c # _ \<Rightarrow> if c = CHR ''}'' then Some (b # rest) else None))"

text \<open>
  \<^verbatim>\<open>parse_strict_json\<close>. The content handed over is whatever the backend put under
  \<^verbatim>\<open>choices[0].message.content\<close>; \<^verbatim>\<open>re.search\<close> raises \<^verbatim>\<open>TypeError\<close> on anything but
  a string.
\<close>

definition parse_strict_json :: "(string \<Rightarrow> json option) \<Rightarrow> json \<Rightarrow> py_error + json" where
  "parse_strict_json loads content =
     (case content of
        JStr s \<Rightarrow>
          (case final_json_match s of
             None \<Rightarrow> Inl (ValueError ''No JSON found in model output'')
           | Some m \<Rightarrow>
               (case loads m of
                  None \<Rightarrow> Inl JSONDecodeError
                | Some obj \<Rightarrow>
                    if conforms PURE_MATH_JSON_SCHEMA obj then Inr obj else Inl ValidationError))
      | _ \<Rightarrow> Inl TypeError)"

section \<open>Inference client\<close>

text \<open>
  What one \<^verbatim>\<open>requests.post\<close> gives: it raises, or it returns a response of which the
  client reads \<^verbatim>\<open>status_code\<close>, \<^verbatim>\<open>json()\<close> (\<open>None\<close> when it raises) and \<^verbatim>\<open>text\<close>.
\<close>

record http_response =
  status_code :: int
  resp_json :: "json option"
  resp_text :: string

datatype attempt_outcome = PostRaises string | Responds http_response

text \<open>The module's globals.\<close>

record config =
  world_rank :: int
  world_size :: int
  local_rank :: int
  SERVER_BASE_PORT :: int

definition server_url :: "config \<Rightarrow> string" where
  "server_url cfg =
     ''http://127.0.0.1:'' @ show_int (SERVER_BASE_PORT cfg + local_rank cfg)
       @ ''/v1/chat/completions''"

definition max_attempts :: nat where
  "max_attempts = 60"

text \<open>The message looked for in a 503 body; any exception on the way gives \<^verbatim>\<open>""\<close>.\<close>

definition loading_message :: "http_response \<Rightarrow> json" where
  "loading_message resp =
     (case resp_json resp of
        None \<Rightarrow> JStr []
      | Some data \<Rightarrow>
          (case py_get data ''error'' (JObj []) of
             Inl _ \<Rightarrow> JStr []
           | Inr err \<Rightarrow>
               (case py_get err ''message'' (JStr []) of
                  Inl _ \<Rightarrow> JStr []
                | Inr msg \<Rightarrow> msg)))"

definition error_payload :: "http_response \<Rightarrow> payload" where
  "error_payload resp =
     (case resp_json resp of None \<Rightarrow> PText (resp_text resp) | Some err \<Rightarrow> PJson err)"

text \<open>\<^verbatim>\<open>data["choices"][0]["message"]["content"]\<close>\<close>

definition message_content :: "json \<Rightarrow> py_error + json" where
  "message_content data =
     (case py_item data ''choices'' of
        Inl e \<Rightarrow> Inl e
      | Inr choices \<Rightarrow>
          (case py_item0 choices of
             Inl e \<Rightarrow> Inl e
           | Inr choice \<Rightarrow>
               (case py_item choice ''message'' of
                  Inl e \<Rightarrow> Inl e
                | Inr message \<Rightarrow> py_item message ''content'')))"

text \<open>
  The body of the \<^verbatim>\<open>for attempt in range(1, max_attempts + 1)\<close> loop: \<open>Retry\<close> is
  \<^verbatim>\<open>time.sleep(sleep_seconds); continue\<close>, \<open>Done\<close> a return or a raise.
\<close>

datatype attempt_result = Retry | Done "py_error + json"

definition one_attempt :: "config \<Rightarrow> nat \<Rightarrow> attempt_outcome \<Rightarrow> attempt_result" where
  "one_attempt cfg attempt outcome =
     (case outcome of
        PostRaises e \<Rightarrow>
          if attempt = max_attempts then
            Done (Inl (RuntimeError
              (HttpErrorAfter (world_rank cfg) (server_url cfg) max_attempts e)))
          else Retry
      | Responds resp \<Rightarrow>
          (case (if status_code resp = 503
                 then py_in ''Loading model'' (loading_message resp)
                 else Inr False) of
             Inl err \<Rightarrow> Done (Inl err)
           | Inr loading \<Rightarrow>
               if loading then
                 (if attempt = max_attempts then
                    Done (Inl (RuntimeError
                      (StuckLoading (world_rank cfg) (server_url cfg) max_attempts)))
                  else Retry)
               else if status_code resp \<noteq> 200 then
                 Done (Inl (RuntimeError
                   (HttpStatus (world_rank cfg) (status_code resp) (error_payload resp))))
               else
                 (case resp_json resp of
                    None \<Rightarrow>
                      Done (Inl (RuntimeError
                        (BadResponseJson (world_rank cfg) (resp_text resp))))
                  | Some data \<Rightarrow>
                      (case message_content data of
                         Inl _ \<Rightarrow>
                           Done (Inl (RuntimeError (UnexpectedSchema (world_rank cfg) data)))
                       | Inr content \<Rightarrow> Done (Inr content)))))"

text \<open>
  The loop over the attempt numbers; the backend is the outcome of each attempt. The
  result is the number of sleeps with what the call returns or raises.
\<close>

fun attempts_loop ::
  "config \<Rightarrow> (nat \<Rightarrow> attempt_outcome) \<Rightarrow> nat list \<Rightarrow> nat \<Rightarrow> nat \<times> (py_error + json)"
where
  "attempts_loop cfg outcomes [] sleeps =
     (sleeps, Inl (RuntimeError (Exhausted (world_rank cfg))))"
| "attempts_loop cfg outcomes (attempt # rest) sleeps =
     (case one_attempt cfg attempt (outcomes attempt) of
        Retry \<Rightarrow> attempts_loop cfg outcomes rest (Suc sleeps)
      | Done r \<Rightarrow> (sleeps, r))"

definition llama_server_infer ::
  "config \<Rightarrow> (nat \<Rightarrow> attempt_outcome) \<Rightarrow> nat \<times> (py_error + json)"
where
  "llama_server_infer cfg outcomes = attempts_loop cfg outcomes [1..<max_attempts + 1] 0"

section \<open>Checkpoint store\<close>

text \<open>\<^verbatim>\<open>int(v)\<close> on a decoded value; \<open>int_of_str\<close> is \<^verbatim>\<open>int\<close> on a string in base 10.\<close>

fun split_underscore :: "string \<Rightarrow> string \<Rightarrow> string list" where
  "split_underscore cur [] = [rev cur]"
| "split_underscore cur (c # cs) =
     (if c = CHR ''_'' then rev cur # split_underscore [] cs
      else split_underscore (c # cur) cs)"

definition int_of_str :: "string \<Rightarrow> int option" where
  "int_of_str s =
     (let t = py_strip s;
          neg = starts_with ''-'' t;
          u = (if neg \<or> starts_with ''+'' t then drop 1 t else t);
          groups = split_underscore [] u
      in if list_all (\<lambda>g. g \<noteq> [] \<and> list_all is_digit g) groups then
           Some (if neg then - digits_value (concat groups) else digits_value (concat groups))
         else None)"

definition py_int :: "json \<Rightarrow> py_error + int" where
  "py_int v =
     (case v of
        JInt n \<Rightarrow> Inr n
      | JBool b \<Rightarrow> Inr (if b then 1 else 0)
      | JStr s \<Rightarrow>
          (case int_of_str s of
             None \<Rightarrow> Inl (ValueError ''invalid literal for int() with base 10'')
           | Some n \<Rightarrow> Inr n)
      | _ \<Rightarrow> Inl TypeError)"

datatype file_state = Absent | Unreadable | Holds string

text \<open>Lines 244 to 251 of \<^verbatim>\<open>process_file_row_sharded\<close>.\<close>

definition read_start_offset :: "(string \<Rightarrow> json option) \<Rightarrow> file_state \<Rightarrow> int" where
  "read_start_offset loads ckpt =
     (case ckpt of
        Absent \<Rightarrow> 0
      | Unreadable \<Rightarrow> 0
      | Holds txt \<Rightarrow>
          (case loads txt of
             None \<Rightarrow> 0
           | Some data \<Rightarrow>
               (case py_get data ''row_offset'' (JInt 0) of
                  Inl _ \<Rightarrow> 0
                | Inr v \<Rightarrow> (case py_int v of Inl _ \<Rightarrow> 0 | Inr n \<Rightarrow> n))))"


text \<open>\<^verbatim>\<open>json.dumps({"row_offset": offset}, ensure_ascii=False)\<close>\<close>

definition dumps_row_offset :: "int \<Rightarrow> string" where
  \<open>dumps_row_offset offset = ''{"row_offset": '' @ show_int offset @ ''}''\<close>

section \<open>Row-sharded processing\<close>

text \<open>
  A row of the (already filtered) data frame; \<open>content_resolved\<close> is \<open>None\<close> when the
  cell is missing or \<^verbatim>\<open>None\<close>, so that \<^verbatim>\<open>str(row.get("content_resolved", "") or "")\<close>
  is the empty string. \<^verbatim>\<open>df.iloc[i]\<close> counts a negative index from the end.
\<close>

record row =
  paper_id :: string
  equation_id :: string
  content_resolved :: "string option"

definition iloc :: "row list \<Rightarrow> int \<Rightarrow> py_error + row" where
  "iloc df i =
     (let n = int (length df)
      in if 0 \<le> i \<and> i < n then Inr (df ! nat i)
         else if - n \<le> i \<and> i < 0 then Inr (df ! nat (n + i))
         else Inl IndexError)"

text \<open>
  What the call of one file depends on besides the module's globals: the decoder, the
  prompt template around the \<^verbatim>\<open>{latex_raw}\<close> slot (with the schema already filled in),
  and what the backend answers to the attempts made for each row.
\<close>

record env =
  loads :: "string \<Rightarrow> json option"
  prompt_head :: string
  prompt_tail :: string
  backend :: "int \<Rightarrow> nat \<Rightarrow> attempt_outcome"

definition build_prompt :: "env \<Rightarrow> string \<Rightarrow> string" where
  "build_prompt e latex_raw = prompt_head e @ latex_raw @ prompt_tail e"

text \<open>
  An output record is the Python dict \<^verbatim>\<open>rec\<close>, item by item. \<open>CDumps v\<close> stands for the
  text \<^verbatim>\<open>json.dumps(v, ensure_ascii=False)\<close>.
\<close>

datatype cell = CStr string | CInt int | CJson json | CDumps json

type_synonym outrec = "(string \<times> cell) list"

definition base_record :: "row \<Rightarrow> string \<Rightarrow> string \<Rightarrow> json \<Rightarrow> int \<Rightarrow> outrec" where
  "base_record r latex_raw latex_clean content global_row_index =
     [(''paper_id'', CStr (paper_id r)),
      (''equation_id'', CStr (equation_id r)),
      (''latex_raw'', CStr latex_raw),
      (''latex_clean'', CStr latex_clean),
      (''llm_raw_output'', CJson content),
      (''global_row'', CInt global_row_index)]"

text \<open>The dict passed to \<^verbatim>\<open>rec.update\<close>; a failing subscript raises out of the loop.\<close>

definition structured_fields :: "json \<Rightarrow> py_error + outrec" where
  "structured_fields parsed =
     (case py_item parsed ''analysis'' of
        Inl e \<Rightarrow> Inl e
      | Inr analysis \<Rightarrow>
     (case py_item parsed ''equivalents'' of
        Inl e \<Rightarrow> Inl e
      | Inr equivs \<Rightarrow>
     (case py_item analysis ''math_keywords'' of
        Inl e \<Rightarrow> Inl e
      | Inr kw \<Rightarrow>
     (case py_item analysis ''math_sentence'' of
        Inl e \<Rightarrow> Inl e
      | Inr sentence \<Rightarrow>
     (case py_item analysis ''katex'' of
        Inl e \<Rightarrow> Inl e
      | Inr katex \<Rightarrow>
     (case py_item equivs ''equiv_form_1'' of
        Inl e \<Rightarrow> Inl e
      | Inr e1 \<Rightarrow>
     (case py_item equivs ''equiv_form_2'' of
        Inl e \<Rightarrow> Inl e
      | Inr e2 \<Rightarrow>
          Inr [(''math_keywords'', CDumps kw),
               (''math_sentence'', CJson sentence),
               (''katex'', CJson katex),
               (''equiv_form_1'', CDumps e1),
               (''equiv_form_2'', CDumps e2),
               (''output_json'', CDumps parsed)])))))))"

text \<open>
  The state of one call: the local \<open>buffer\<close> and \<open>count\<close>, the two files of this
  rank, and three logs kept for the statements below: the offsets written to the
  checkpoint in order, the rows for which the backend was called, and the number of
  sleeps.
\<close>

record pstate =
  buffer :: "outrec list"
  count :: nat
  out_file :: "outrec list option"
  ckpt_file :: file_state
  ckpt_log :: "int list"
  calls :: "int list"
  slept :: nat

text \<open>\<^verbatim>\<open>_flush\<close> and \<^verbatim>\<open>_write_rank_ckpt\<close>\<close>

definition flush :: "outrec list option \<Rightarrow> outrec list \<Rightarrow> outrec list option" where
  "flush file records =
     (if records = [] then file
      else (case file of None \<Rightarrow> Some records | Some old \<Rightarrow> Some (old @ records)))"

definition write_rank_ckpt :: "pstate \<Rightarrow> int \<Rightarrow> pstate" where
  "write_rank_ckpt st offset =
     st\<lparr>ckpt_file := Holds (dumps_row_offset offset), ckpt_log := ckpt_log st @ [offset]\<rparr>"

text \<open>
  \<^verbatim>\<open>flush_every\<close> is a local constant, 20 here and 200 in the legacy variant; the
  model takes it as the argument \<open>fe\<close>, a positive number. Lines 324 to 332:
\<close>

definition flush_every :: nat where
  "flush_every = 20"

definition buffer_record :: "nat \<Rightarrow> pstate \<Rightarrow> outrec \<Rightarrow> pstate" where
  "buffer_record fe st rec =
     (let st1 = st\<lparr>buffer := buffer st @ [rec], count := count st + 1\<rparr>
      in if count st1 mod fe = 0 then
           write_rank_ckpt
             (st1\<lparr>out_file := flush (out_file st1) (buffer st1), buffer := []\<rparr>)
             (int (count st1 div fe))
         else st1)"

text \<open>The body of \<^verbatim>\<open>for global_row_index in my_rows\<close>.\<close>

definition process_row ::
  "config \<Rightarrow> env \<Rightarrow> int \<Rightarrow> nat \<Rightarrow> row list \<Rightarrow> pstate \<Rightarrow> int \<Rightarrow> py_error + pstate"
where
  "process_row cfg e ctx fe df st global_row_index =
     (case iloc df global_row_index of
        Inl err \<Rightarrow> Inl err
      | Inr r \<Rightarrow>
          (let latex_raw = (case content_resolved r of None \<Rightarrow> [] | Some s \<Rightarrow> s);
               latex_clean = katex_hygiene latex_raw;
               prompt = build_prompt e latex_clean
           in if int (length prompt) > ctx * 4 then Inr st
              else
                (case llama_server_infer cfg (backend e global_row_index) of
                   (n, Inl err) \<Rightarrow>
                     Inr (st\<lparr>calls := calls st @ [global_row_index], slept := slept st + n\<rparr>)
                 | (n, Inr content) \<Rightarrow>
                     (let st1 = st\<lparr>calls := calls st @ [global_row_index],
                                   slept := slept st + n\<rparr>;
                          rec = base_record r latex_raw latex_clean content global_row_index
                      in case parse_strict_json (loads e) content of
                           Inl _ \<Rightarrow> Inr (buffer_record fe st1 rec)
                         | Inr parsed \<Rightarrow>
                             if py_truthy parsed then
                               (case structured_fields parsed of
                                  Inl err \<Rightarrow> Inl err
                                | Inr extra \<Rightarrow> Inr (buffer_record fe st1 (rec @ extra)))
                             else Inr (buffer_record fe st1 rec)))))"

fun row_loop ::
  "config \<Rightarrow> env \<Rightarrow> int \<Rightarrow> nat \<Rightarrow> row list \<Rightarrow> int list \<Rightarrow> pstate \<Rightarrow> py_error + pstate"
where
  "row_loop cfg e ctx fe df [] st = Inr st"
| "row_loop cfg e ctx fe df (i # rest) st =
     (case process_row cfg e ctx fe df st i of
        Inl err \<Rightarrow> Inl err
      | Inr st' \<Rightarrow> row_loop cfg e ctx fe df rest st')"

text \<open>
  \<^verbatim>\<open>process_file_row_sharded\<close> from the reading of the checkpoint on. The state passed
  in holds the two files as the call finds them.
\<close>

definition process_file_row_sharded ::
  "config \<Rightarrow> env \<Rightarrow> int \<Rightarrow> nat \<Rightarrow> row list \<Rightarrow> pstate \<Rightarrow> py_error + pstate"
where
  "process_file_row_sharded cfg e ctx fe df st0 =
     (let total_rows = int (length df);
          start_offset = read_start_offset (loads e) (ckpt_file st0)
      in case my_rows (world_rank cfg) (world_size cfg) start_offset total_rows of
           Inl err \<Rightarrow> Inl err
         | Inr rows \<Rightarrow>
             (case row_loop cfg e ctx fe df rows (st0\<lparr>buffer := [], count := 0\<rparr>) of
                Inl err \<Rightarrow> Inl err
              | Inr st \<Rightarrow>
                  Inr (write_rank_ckpt
                         (st\<lparr>out_file := flush (out_file st) (buffer st)\<rparr>)
                         (int (length rows)))))"

section \<open>The conditions the claims speak of\<close>

text \<open>
  The error message of a response: the string under \<^verbatim>\<open>error.message\<close> of its JSON
  body. The backend is warming up when it answers 503 with an error message that
  contains \<^verbatim>\<open>Loading model\<close>; an attempt is transient when the connection fails or
  the backend is warming up; it succeeds with a content when it answers 200 with a
  body that has \<^verbatim>\<open>choices[0].message.content\<close>.
\<close>

definition error_message :: "http_response \<Rightarrow> string option" where
  "error_message resp =
     (case resp_json resp of
        Some (JObj kvs) \<Rightarrow>
          (case map_of kvs ''error'' of
             Some (JObj ekvs) \<Rightarrow>
               (case map_of ekvs ''message'' of Some (JStr m) \<Rightarrow> Some m | _ \<Rightarrow> None)
           | _ \<Rightarrow> None)
      | _ \<Rightarrow> None)"

definition warming_up :: "http_response \<Rightarrow> bool" where
  "warming_up resp =
     (status_code resp = 503 \<and>
      (case error_message resp of None \<Rightarrow> False | Some m \<Rightarrow> str_contains ''Loading model'' m))"

definition is_transient :: "attempt_outcome \<Rightarrow> bool" where
  "is_transient outcome =
     (case outcome of PostRaises e \<Rightarrow> True | Responds resp \<Rightarrow> warming_up resp)"

definition success_content :: "attempt_outcome \<Rightarrow> json option" where
  "success_content outcome =
     (case outcome of
        PostRaises e \<Rightarrow> None
      | Responds resp \<Rightarrow>
          if status_code resp = 200 then
            (case resp_json resp of
               None \<Rightarrow> None
             | Some data \<Rightarrow>
                 (case message_content data of Inl _ \<Rightarrow> None | Inr c \<Rightarrow> Some c))
          else None)"

text \<open>
  The raw expression and the prompt of a row, as the loop body computes them; the
  record kept for a row whose output did not validate; and the records a state holds,
  written to the output file or still in the buffer.
\<close>

definition row_latex_raw :: "row \<Rightarrow> string" where
  "row_latex_raw r = (case content_resolved r of None \<Rightarrow> [] | Some s \<Rightarrow> s)"

definition row_prompt :: "env \<Rightarrow> row \<Rightarrow> string" where
  "row_prompt e r = build_prompt e (katex_hygiene (row_latex_raw r))"

definition degraded_record :: "row \<Rightarrow> json \<Rightarrow> int \<Rightarrow> outrec" where
  "degraded_record r content i =
     base_record r (row_latex_raw r) (katex_hygiene (row_latex_raw r)) content i"

definition records_of :: "pstate \<Rightarrow> outrec list" where
  "records_of st = (case out_file st of None \<Rightarrow> [] | Some old \<Rightarrow> old) @ buffer st"

definition has_row :: "int \<Rightarrow> outrec \<Rightarrow> bool" where
  "has_row i rec = (map_of rec ''global_row'' = Some (CInt i))"

section \<open>Example data\<close>

definition example_config :: config where
  "example_config =
     \<lparr>world_rank = 0, world_size = 1, local_rank = 0, SERVER_BASE_PORT = 18080\<rparr>"

definition ok_response :: "json \<Rightarrow> http_response" where
  "ok_response content =
     \<lparr>status_code = 200,
      resp_json = Some (JObj [(''choices'',
        JArr [JObj [(''message'', JObj [(''content'', content)])]])]),
      resp_text = []\<rparr>"

definition loading_response :: http_response where
  "loading_response =
     \<lparr>status_code = 503,
      resp_json = Some (JObj [(''error'',
        JObj [(''code'', JInt 503), (''message'', JStr ''Loading model''),
              (''type'', JStr ''unavailable_error'')])]),
      resp_text = []\<rparr>"

definition flaky_backend :: "nat \<Rightarrow> attempt_outcome" where
  "flaky_backend a =
     (if a = 1 then PostRaises ''Connection refused''
      else if a \<le> 3 then Responds loading_response
      else Responds (ok_response (JStr ''hi'')))"

definition dead_backend :: "nat \<Rightarrow> attempt_outcome" where
  "dead_backend a =
     (if even a then PostRaises ''Connection refused'' else Responds loading_response)"

definition example_env :: env where
  "example_env =
     \<lparr>loads = json_loads, prompt_head = ''P:'', prompt_tail = ''.'',
      backend = (\<lambda>i a. Responds (ok_response (JStr ''x'')))\<rparr>"

definition short_row :: row where
  "short_row = \<lparr>paper_id = ''p'', equation_id = ''e'', content_resolved = Some ''a''\<rparr>"

definition long_row :: row where
  "long_row = \<lparr>paper_id = ''p'', equation_id = ''f'', content_resolved = Some ''bbbbbbbbbb''\<rparr>"

definition example_df :: "row list" where
  "example_df = [short_row, long_row, short_row]"

definition empty_state :: pstate where
  "empty_state =
     \<lparr>buffer = [], count = 0, out_file = None, ckpt_file = Absent, ckpt_log = [],
      calls = [], slept = 0\<rparr>"

definition example_batch :: "nat \<Rightarrow> row list" where
  "example_batch n = replicate n short_row"

definition worker0_of3 :: config where
  "worker0_of3 =
     \<lparr>world_rank = 0, world_size = 3, local_rank = 0, SERVER_BASE_PORT = 18080\<rparr>"

text \<open>A 503 whose body has \<^verbatim>\<open>null\<close> under \<^verbatim>\<open>error.message\<close>.\<close>

definition null_message_response :: http_response where
  \<open>null_message_response =
     \<lparr>status_code = 503,
      resp_json = Some (JObj [(''error'', JObj [(''message'', JNull)])]),
      resp_text = ''{"error": {"message": null}}''\<rparr>\<close>

text \<open>An instance of the schema, as text and decoded.\<close>

definition valid_output :: string where
  \<open>valid_output =
     ''{"input": {"latex_raw": "x^2"}, "analysis": {"math_keywords": ["power"], "math_sentence": "A square.", "katex": "x^2"}, "equivalents": {"equiv_form_1": {"name_of_trafo": "product", "assumptions": [], "latex": "x x"}, "equiv_form_2": {"name_of_trafo": "root", "assumptions": ["x >= 0"], "latex": "y"}}}''\<close>

definition valid_object :: json where
  "valid_object =
     JObj [(''input'', JObj [(''latex_raw'', JStr ''x^2'')]),
           (''analysis'',
              JObj [(''math_keywords'', JArr [JStr ''power'']),
                    (''math_sentence'', JStr ''A square.''),
                    (''katex'', JStr ''x^2'')]),
           (''equivalents'',
              JObj [(''equiv_form_1'',
                       JObj [(''name_of_trafo'', JStr ''product''),
                             (''assumptions'', JArr []),
                             (''latex'', JStr ''x x'')]),
                    (''equiv_form_2'',
                       JObj [(''name_of_trafo'', JStr ''root''),
                             (''assumptions'', JArr [JStr ''x >= 0'']),
                             (''latex'', JStr ''y'')])])]"

text \<open>The same instance after a remark that has braces of its own.\<close>

definition chatty_output :: string where
  "chatty_output = ''x^{2}: '' @ valid_output"

text \<open>
  The states of one worker on a batch of 21 rows with the flush threshold 20: after
  the first 20 iterations of a first call, after a second call that starts from
  there, after a first call that runs to its end, and after a second call on what
  that one left.
\<close>

definition rows_0_to_19 :: "int list" where
  "rows_0_to_19 = [0, 1, 2, 3, 4, 5, 6, 7, 8, 9, 10, 11, 12, 13, 14, 15, 16, 17, 18, 19]"

definition rows_1_to_20 :: "int list" where
  "rows_1_to_20 = [1, 2, 3, 4, 5, 6, 7, 8, 9, 10, 11, 12, 13, 14, 15, 16, 17, 18, 19, 20]"

definition example_record :: "int \<Rightarrow> outrec" where
  "example_record i = degraded_record short_row (JStr ''x'') i"

definition crash_state :: pstate where
  \<open>crash_state =
     \<lparr>buffer = [], count = 20,
      out_file = Some (map example_record rows_0_to_19),
      ckpt_file = Holds ''{"row_offset": 1}'',
      ckpt_log = [1], calls = rows_0_to_19, slept = 0\<rparr>\<close>

definition resumed_state :: pstate where
  \<open>resumed_state =
     \<lparr>buffer = [], count = 20,
      out_file = Some (map example_record (rows_0_to_19 @ rows_1_to_20)),
      ckpt_file = Holds ''{"row_offset": 20}'',
      ckpt_log = [1, 1, 20], calls = rows_0_to_19 @ rows_1_to_20, slept = 0\<rparr>\<close>

definition finished_state :: pstate where
  \<open>finished_state =
     \<lparr>buffer = [example_record 20], count = 21,
      out_file = Some (map example_record (rows_0_to_19 @ [20])),
      ckpt_file = Holds ''{"row_offset": 21}'',
      ckpt_log = [1, 21], calls = rows_0_to_19 @ [20], slept = 0\<rparr>\<close>

definition rerun_state :: pstate where
  \<open>rerun_state =
     \<lparr>buffer = [], count = 0,
      out_file = Some (map example_record (rows_0_to_19 @ [20])),
      ckpt_file = Holds ''{"row_offset": 0}'',
      ckpt_log = [1, 21, 0], calls = rows_0_to_19 @ [20], slept = 0\<rparr>\<close>

section \<open>Properties of the shard partitioner\<close>

lemma le_div_iff_int:
  fixes k a s :: int
  assumes "0 < s"
  shows "k \<le> a div s \<longleftrightarrow> k * s \<le> a"
proof
  assume "k \<le> a div s"
  then have "k * s \<le> (a div s) * s"
    using assms by (simp add: mult_right_mono)
  also have "\<dots> \<le> a"
    using assms by (metis add.commute div_mult_mod_eq le_add_same_cancel2 pos_mod_sign)
  finally show "k * s \<le> a" .
next
  assume "k * s \<le> a"
  then have "(k * s) div s \<le> a div s"
    using assms by (rule zdiv_mono1)
  then show "k \<le> a div s"
    using assms by simp
qed

lemma range_len_less_iff:
  assumes "0 < step"
  shows "k < range_len start stop step \<longleftrightarrow> start + int k * step < stop"
proof (cases "start < stop")
  case True
  then have nn: "0 \<le> (stop - start - 1) div step"
    using assms by (simp add: pos_imp_zdiv_nonneg_iff)
  have "k < range_len start stop step \<longleftrightarrow> int k \<le> (stop - start - 1) div step"
    using True nn by (simp add: range_len_def) linarith
  also have "\<dots> \<longleftrightarrow> int k * step \<le> stop - start - 1"
    using assms by (rule le_div_iff_int)
  also have "\<dots> \<longleftrightarrow> start + int k * step < stop"
    by linarith
  finally show ?thesis .
next
  case False
  have "0 \<le> int k * step"
    using assms by simp
  with False show ?thesis
    by (simp add: range_len_def)
qed

lemma set_range_up:
  assumes "0 < step"
  shows "set (map (\<lambda>i. start + int i * step) [0..<range_len start stop step])
         = {x. start \<le> x \<and> x < stop \<and> (x - start) mod step = 0}"
    (is "?L = ?R")
proof
  show "?L \<subseteq> ?R"
  proof
    fix x
    assume "x \<in> ?L"
    then obtain k where k: "k < range_len start stop step" "x = start + int k * step"
      by auto
    then have "x < stop"
      using range_len_less_iff [OF assms] by simp
    moreover have "start \<le> x"
      using k assms by simp
    moreover have "(x - start) mod step = 0"
      using k by simp
    ultimately show "x \<in> ?R"
      by simp
  qed
  show "?R \<subseteq> ?L"
  proof
    fix x
    assume "x \<in> ?R"
    then have x: "start \<le> x" "x < stop" "(x - start) mod step = 0"
      by auto
    define k where "k = nat ((x - start) div step)"
    have "0 \<le> (x - start) div step"
      using x assms by (simp add: pos_imp_zdiv_nonneg_iff)
    then have ik: "int k = (x - start) div step"
      by (simp add: k_def)
    have "x - start = ((x - start) div step) * step"
      using x(3) by (metis add.right_neutral div_mult_mod_eq)
    then have eq: "x = start + int k * step"
      using ik by simp
    then have "k < range_len start stop step"
      using range_len_less_iff [OF assms] x(2) by simp
    with eq show "x \<in> ?L"
      by auto
  qed
qed

lemma distinct_range_up:
  assumes "0 < step"
  shows "distinct (map (\<lambda>i. start + int i * step) [0..<n])"
  using assms by (simp add: distinct_map inj_on_def)

lemma sorted_range_up:
  assumes "0 < step"
  shows "sorted (map (\<lambda>i. start + int i * step) [0..<n])"
  using assms by (induction n) (auto simp: sorted_append mult_right_mono)

text \<open>With a positive world size the row list is the ascending range.\<close>

lemma my_rows_pos:
  assumes "0 < W"
  shows "my_rows g W off N =
         Inr (map (\<lambda>i. (g + off * W) + int i * W) [0..<range_len (g + off * W) N W])"
  using assms by (simp add: my_rows_def py_range_def)

lemma set_my_rows:
  assumes "0 < W"
  shows "set (projr (my_rows g W off N))
         = {x. g + off * W \<le> x \<and> x < N \<and> (x - (g + off * W)) mod W = 0}"
  unfolding my_rows_pos [OF assms] sum.sel by (rule set_range_up [OF assms])

lemma owner_iff:
  assumes "0 < W" and "0 \<le> g" and "g < W"
  shows "i \<in> set (projr (my_rows g W 0 N)) \<longleftrightarrow> 0 \<le> i \<and> i < N \<and> i mod W = g"
proof -
  have g: "g mod W = g"
    using assms by simp
  have "(i - g) mod W = 0 \<longleftrightarrow> i mod W = g"
  proof
    assume "(i - g) mod W = 0"
    then have "i mod W = g mod W"
      by (metis mod_eq_dvd_iff mod_0_imp_dvd)
    then show "i mod W = g"
      using g by simp
  next
    assume "i mod W = g"
    then have "i mod W = g mod W"
      using g by simp
    then show "(i - g) mod W = 0"
      by (metis mod_eq_dvd_iff dvd_imp_mod_0)
  qed
  moreover have "i mod W = g \<Longrightarrow> g \<le> i \<longleftrightarrow> 0 \<le> i"
    using assms by (metis mod_int_pos_iff order_trans pos_mod_sign zmod_le_nonneg_dividend
        less_le_not_le linorder_le_cases)
  ultimately show ?thesis
    using assms by (auto simp: set_my_rows)
qed

text \<open>
  C3 (coverage). For a batch of \<open>N \<ge> 0\<close> rows and a world of \<open>W \<ge> 1\<close> workers, with
  resume offset 0: every worker index \<open>g\<close> in \<open>[0, W)\<close> gets a row list that is the
  ascending range from \<open>g\<close> in steps of \<open>W\<close> below \<open>N\<close>, without repetition; the union of
  the lists over all workers is \<open>{0, ..., N - 1}\<close>; and every index of the batch is in
  the list of exactly one worker.
\<close>

theorem coverage:
  assumes "1 \<le> W" and "0 \<le> N"
  shows "(\<forall>g. 0 \<le> g \<and> g < W \<longrightarrow>
            (\<exists>rows. my_rows g W 0 N = Inr rows \<and> distinct rows \<and> sorted rows \<and>
                    set rows = {i. 0 \<le> i \<and> i < N \<and> i mod W = g}))
       \<and> (\<Union>g\<in>{0..<W}. set (projr (my_rows g W 0 N))) = {0..<N}
       \<and> (\<forall>i. 0 \<le> i \<and> i < N \<longrightarrow>
            (\<exists>!g. 0 \<le> g \<and> g < W \<and> i \<in> set (projr (my_rows g W 0 N))))"
proof (intro conjI allI impI)
  fix g
  assume g: "0 \<le> g \<and> g < W"
  let ?rows = "map (\<lambda>i. (g + 0 * W) + int i * W) [0..<range_len (g + 0 * W) N W]"
  have W: "0 < W"
    using assms by simp
  have "my_rows g W 0 N = Inr ?rows"
    using W by (rule my_rows_pos)
  moreover have "distinct ?rows"
    using W by (rule distinct_range_up)
  moreover have "sorted ?rows"
    using W by (rule sorted_range_up)
  moreover have "set ?rows = {i. 0 \<le> i \<and> i < N \<and> i mod W = g}"
  proof -
    have "set ?rows = set (projr (my_rows g W 0 N))"
      using W by (simp add: my_rows_pos)
    then show ?thesis
      using owner_iff [OF W, of g _ N] g by auto
  qed
  ultimately show "\<exists>rows. my_rows g W 0 N = Inr rows \<and> distinct rows \<and> sorted rows \<and>
                    set rows = {i. 0 \<le> i \<and> i < N \<and> i mod W = g}"
    by blast
next
  have W: "0 < W"
    using assms by simp
  show "(\<Union>g\<in>{0..<W}. set (projr (my_rows g W 0 N))) = {0..<N}"
  proof (rule set_eqI)
    fix i
    have "i \<in> (\<Union>g\<in>{0..<W}. set (projr (my_rows g W 0 N)))
          \<longleftrightarrow> (\<exists>g. 0 \<le> g \<and> g < W \<and> 0 \<le> i \<and> i < N \<and> i mod W = g)"
      using owner_iff [OF W] by auto
    also have "\<dots> \<longleftrightarrow> 0 \<le> i \<and> i < N"
      using W by (auto simp: pos_mod_sign pos_mod_bound)
    finally show "i \<in> (\<Union>g\<in>{0..<W}. set (projr (my_rows g W 0 N))) \<longleftrightarrow> i \<in> {0..<N}"
      by simp
  qed
next
  fix i
  assume i: "0 \<le> i \<and> i < N"
  have W: "0 < W"
    using assms by simp
  show "\<exists>!g. 0 \<le> g \<and> g < W \<and> i \<in> set (projr (my_rows g W 0 N))"
  proof (rule ex1I [of _ "i mod W"])
    show "0 \<le> i mod W \<and> i mod W < W \<and> i \<in> set (projr (my_rows (i mod W) W 0 N))"
      using W i owner_iff [OF W, of "i mod W" i N]
      by (simp add: pos_mod_sign pos_mod_bound)
  next
    fix g
    assume "0 \<le> g \<and> g < W \<and> i \<in> set (projr (my_rows g W 0 N))"
    then show "g = i mod W"
      using owner_iff [OF W, of g i N] by auto
  qed
qed

theorem coverage_witness:
  "(1 :: int) \<le> 3 \<and> (0 :: int) \<le> 7
   \<and> (\<Union>g\<in>{0..<3}. set (projr (my_rows g 3 0 7))) = {0..<7}
   \<and> (\<exists>!g. 0 \<le> g \<and> g < 3 \<and> 4 \<in> set (projr (my_rows g 3 0 7)))"
  using coverage [of 3 7] by simp

section \<open>Properties of the inference client\<close>

lemma loading_message_of_error_message:
  "error_message resp = Some m \<Longrightarrow> loading_message resp = JStr m"
  by (auto simp: error_message_def loading_message_def py_get_def
      split: option.splits json.splits)

lemma transient_retries:
  assumes "is_transient outcome" and "attempt \<noteq> max_attempts"
  shows "one_attempt cfg attempt outcome = Retry"
proof (cases outcome)
  case (PostRaises e)
  with assms show ?thesis by (simp add: one_attempt_def)
next
  case (Responds resp)
  with assms obtain m where m: "status_code resp = 503" "error_message resp = Some m"
      "str_contains ''Loading model'' m"
    by (auto simp: is_transient_def warming_up_def split: option.splits)
  have "py_in ''Loading model'' (loading_message resp) = Inr True"
    using m by (simp add: loading_message_of_error_message py_in_def)
  with Responds m assms(2) show ?thesis
    by (simp add: one_attempt_def)
qed

lemma success_returns:
  assumes "success_content outcome = Some c"
  shows "one_attempt cfg attempt outcome = Done (Inr c)"
  using assms
  by (auto simp: success_content_def one_attempt_def
      split: attempt_outcome.splits if_splits option.splits sum.splits)

lemma transient_last_attempt:
  assumes "is_transient outcome"
  shows "one_attempt cfg max_attempts outcome =
         Done (Inl (RuntimeError
           (case outcome of
              PostRaises e \<Rightarrow> HttpErrorAfter (world_rank cfg) (server_url cfg) max_attempts e
            | Responds resp \<Rightarrow> StuckLoading (world_rank cfg) (server_url cfg) max_attempts)))"
proof (cases outcome)
  case (PostRaises e)
  then show ?thesis by (simp add: one_attempt_def)
next
  case (Responds resp)
  with assms obtain m where m: "status_code resp = 503" "error_message resp = Some m"
      "str_contains ''Loading model'' m"
    by (auto simp: is_transient_def warming_up_def split: option.splits)
  have "py_in ''Loading model'' (loading_message resp) = Inr True"
    using m by (simp add: loading_message_of_error_message py_in_def)
  with Responds m show ?thesis
    by (simp add: one_attempt_def)
qed

lemma attempts_loop_skip:
  assumes "\<forall>a. lo \<le> a \<and> a < lo + j \<longrightarrow> is_transient (outcomes a)"
    and "lo + j \<le> hi" and "lo + j \<le> max_attempts"
  shows "attempts_loop cfg outcomes [lo..<hi] s = attempts_loop cfg outcomes [lo + j..<hi] (s + j)"
  using assms
proof (induction j arbitrary: lo s)
  case 0
  then show ?case by simp
next
  case (Suc j)
  have lo: "lo < hi" "lo \<noteq> max_attempts" "is_transient (outcomes lo)"
    using Suc.prems by auto
  have step: "attempts_loop cfg outcomes [lo..<hi] s
              = attempts_loop cfg outcomes [Suc lo..<hi] (Suc s)"
    using lo by (simp add: upt_conv_Cons transient_retries)
  have "attempts_loop cfg outcomes [Suc lo..<hi] (Suc s)
        = attempts_loop cfg outcomes [Suc lo + j..<hi] (Suc s + j)"
    using Suc.prems by (intro Suc.IH) auto
  with step show ?case by simp
qed

lemma attempts_loop_done:
  assumes "lo < hi" and "one_attempt cfg lo (outcomes lo) = Done r"
  shows "attempts_loop cfg outcomes [lo..<hi] s = (s, r)"
  using assms by (simp add: upt_conv_Cons)

text \<open>
  C5 (retry bound). If the attempts \<open>1, ..., k\<close> are transient (the connection fails,
  or the backend answers 503 with an error message containing \<^verbatim>\<open>Loading model\<close>),
  \<open>k < 60\<close>, and attempt \<open>k + 1\<close> succeeds with a content, the call returns that
  content after \<open>k\<close> sleeps. If all of the attempts \<open>1, ..., 60\<close> are transient, the call
  raises after 59 sleeps a \<^verbatim>\<open>RuntimeError\<close> whose message carries the URL of the
  endpoint and the attempt count 60.
\<close>

theorem retry_bound:
  "(k < max_attempts \<and> (\<forall>a. 1 \<le> a \<and> a \<le> k \<longrightarrow> is_transient (outcomes a))
      \<and> success_content (outcomes (Suc k)) = Some c
    \<longrightarrow> llama_server_infer cfg outcomes = (k, Inr c))
   \<and> ((\<forall>a. 1 \<le> a \<and> a \<le> max_attempts \<longrightarrow> is_transient (outcomes a))
    \<longrightarrow> llama_server_infer cfg outcomes =
          (max_attempts - 1,
           Inl (RuntimeError
             (case outcomes max_attempts of
                PostRaises e \<Rightarrow> HttpErrorAfter (world_rank cfg) (server_url cfg) max_attempts e
              | Responds resp \<Rightarrow> StuckLoading (world_rank cfg) (server_url cfg) max_attempts))))"
proof (intro conjI impI)
  assume a: "k < max_attempts \<and> (\<forall>a. 1 \<le> a \<and> a \<le> k \<longrightarrow> is_transient (outcomes a))
      \<and> success_content (outcomes (Suc k)) = Some c"
  have "attempts_loop cfg outcomes [1..<max_attempts + 1] 0
        = attempts_loop cfg outcomes [1 + k..<max_attempts + 1] (0 + k)"
    using a by (intro attempts_loop_skip) auto
  also have "\<dots> = (k, Inr c)"
  proof -
    have lt: "1 + k < max_attempts + 1"
      using a by simp
    have "one_attempt cfg (1 + k) (outcomes (1 + k)) = Done (Inr c)"
      using a by (simp add: success_returns)
    with lt have "attempts_loop cfg outcomes [1 + k..<max_attempts + 1] (0 + k) = (0 + k, Inr c)"
      by (rule attempts_loop_done)
    then show ?thesis
      by simp
  qed
  finally show "llama_server_infer cfg outcomes = (k, Inr c)"
    by (simp add: llama_server_infer_def)
next
  assume a: "\<forall>a. 1 \<le> a \<and> a \<le> max_attempts \<longrightarrow> is_transient (outcomes a)"
  have "max_attempts \<noteq> 0"
    by (simp add: max_attempts_def)
  then obtain n where n: "max_attempts = Suc n"
    using not0_implies_Suc by blast
  let ?err = "Inl (RuntimeError
             (case outcomes max_attempts of
                PostRaises e \<Rightarrow> HttpErrorAfter (world_rank cfg) (server_url cfg) max_attempts e
              | Responds resp \<Rightarrow> StuckLoading (world_rank cfg) (server_url cfg) max_attempts))"
  have skip: "attempts_loop cfg outcomes [1..<max_attempts + 1] 0
        = attempts_loop cfg outcomes [1 + n..<max_attempts + 1] (0 + n)"
    using a n by (intro attempts_loop_skip) auto
  have last: "1 + n = max_attempts"
    using n by simp
  have "is_transient (outcomes max_attempts)"
    using a n by simp
  then have "one_attempt cfg (1 + n) (outcomes (1 + n)) = Done ?err"
    unfolding last by (rule transient_last_attempt)
  moreover have "1 + n < max_attempts + 1"
    using n by simp
  ultimately have "attempts_loop cfg outcomes [1 + n..<max_attempts + 1] (0 + n) = (0 + n, ?err)"
    by (intro attempts_loop_done)
  with skip have "attempts_loop cfg outcomes [1..<max_attempts + 1] 0 = (n, ?err)"
    by simp
  moreover have "max_attempts - 1 = n"
    using n by simp
  ultimately show "llama_server_infer cfg outcomes = (max_attempts - 1, ?err)"
    by (simp add: llama_server_infer_def)
qed

theorem retry_bound_witness:
  "list_all (\<lambda>a. is_transient (flaky_backend a)) [1, 2, 3]
   \<and> success_content (flaky_backend 4) = Some (JStr ''hi'')
   \<and> llama_server_infer example_config flaky_backend = (3, Inr (JStr ''hi''))
   \<and> llama_server_infer example_config dead_backend =
       (59, Inl (RuntimeError
          (HttpErrorAfter 0 (server_url example_config) 60 ''Connection refused'')))"
proof -
  have t: "is_transient (Responds loading_response)"
    by (simp add: is_transient_def warming_up_def error_message_def loading_response_def
        starts_with_def)
  have s: "success_content (flaky_backend 4) = Some (JStr ''hi'')"
    by (simp add: flaky_backend_def success_content_def ok_response_def message_content_def
        py_item_def py_item0_def)
  have f: "\<forall>a. 1 \<le> a \<and> a \<le> 3 \<longrightarrow> is_transient (flaky_backend a)"
    using t by (simp add: flaky_backend_def is_transient_def)
  have d: "\<forall>a. 1 \<le> a \<and> a \<le> max_attempts \<longrightarrow> is_transient (dead_backend a)"
    using t by (simp add: dead_backend_def is_transient_def)
  have "llama_server_infer example_config flaky_backend = (3, Inr (JStr ''hi''))"
    using retry_bound [of 3 flaky_backend "JStr ''hi''" example_config] f s
    by (simp add: max_attempts_def)
  moreover have "llama_server_infer example_config dead_backend =
       (59, Inl (RuntimeError
          (HttpErrorAfter 0 (server_url example_config) 60 ''Connection refused'')))"
    using retry_bound [of 0 dead_backend JNull example_config] d
    by (simp add: max_attempts_def dead_backend_def example_config_def)
  ultimately show ?thesis
    using f s by simp
qed

section \<open>Properties of the checkpoint store\<close>



section \<open>Properties of the row loop\<close>

lemma records_of_buffer_record:
  "records_of (buffer_record fe st rec) = records_of st @ [rec]"
  by (simp add: buffer_record_def records_of_def write_rank_ckpt_def flush_def Let_def
      split: option.splits)

lemma count_buffer_record:
  "count (buffer_record fe st rec) = count st + 1"
  by (simp add: buffer_record_def write_rank_ckpt_def Let_def)

lemma calls_buffer_record:
  "calls (buffer_record fe st rec) = calls st"
  by (simp add: buffer_record_def write_rank_ckpt_def Let_def)

lemma has_row_base_record:
  "has_row i (base_record r raw clean content j @ extra) \<longleftrightarrow> i = j"
  by (auto simp: has_row_def base_record_def)

lemma process_row_oversized:
  assumes "iloc df i = Inr r" and "ctx * 4 < int (length (row_prompt e r))"
  shows "process_row cfg e ctx fe df st i = Inr st"
  using assms by (simp add: process_row_def row_prompt_def row_latex_raw_def Let_def)

text \<open>One iteration for a row whose output does not validate.\<close>

lemma process_row_degraded:
  assumes "iloc df i = Inr r"
    and "\<not> ctx * 4 < int (length (row_prompt e r))"
    and "llama_server_infer cfg (backend e i) = (n, Inr content)"
    and "parse_strict_json (loads e) content = Inl err"
  shows "process_row cfg e ctx fe df st i =
         Inr (buffer_record fe (st\<lparr>calls := calls st @ [i], slept := slept st + n\<rparr>)
                (degraded_record r content i))"
  using assms
  by (simp add: process_row_def row_prompt_def row_latex_raw_def degraded_record_def Let_def)

lemma row_loop_append:
  "row_loop cfg e ctx fe df (xs @ ys) st =
   (case row_loop cfg e ctx fe df xs st of
      Inl err \<Rightarrow> Inl err
    | Inr st' \<Rightarrow> row_loop cfg e ctx fe df ys st')"
  by (induction xs arbitrary: st) (auto split: sum.splits)

text \<open>One iteration for another row keeps the invariant.\<close>

lemma process_row_other:
  assumes "process_row cfg e ctx fe df st j = Inr st'" and "j \<noteq> i"
    and "\<not> list_ex (has_row i) (records_of st)" and "i \<notin> set (calls st)"
  shows "\<not> list_ex (has_row i) (records_of st') \<and> i \<notin> set (calls st')"
proof -
  have rec: "\<not> list_ex (has_row i) (records_of (buffer_record fe s (base_record r raw clean c j @ extra)))"
    if "\<not> list_ex (has_row i) (records_of s)" for s r raw clean c extra
    using that assms(2) by (simp add: records_of_buffer_record has_row_base_record)
  have rec0: "\<not> list_ex (has_row i) (records_of (buffer_record fe s (base_record r raw clean c j)))"
    if "\<not> list_ex (has_row i) (records_of s)" for s r raw clean c
    using rec [OF that, of r raw clean c "[]"] by simp
  have upd: "records_of (s\<lparr>calls := cs, slept := n\<rparr>) = records_of s" for s cs n
    by (simp add: records_of_def)
  show ?thesis
    using assms rec rec0
    by (auto simp: process_row_def Let_def calls_buffer_record upd
        split: sum.splits if_splits prod.splits)
qed

lemma row_loop_never_has_row:
  assumes "iloc df i = Inr r" and "ctx * 4 < int (length (row_prompt e r))"
    and "row_loop cfg e ctx fe df rows st = Inr st'"
    and "\<not> list_ex (has_row i) (records_of st)" and "i \<notin> set (calls st)"
  shows "\<not> list_ex (has_row i) (records_of st') \<and> i \<notin> set (calls st')"
  using assms(3-5)
proof (induction rows arbitrary: st)
  case Nil
  then show ?case by simp
next
  case (Cons j rows)
  from Cons.prems(1) obtain s1 where s1: "process_row cfg e ctx fe df st j = Inr s1"
      "row_loop cfg e ctx fe df rows s1 = Inr st'"
    by (auto split: sum.splits)
  have "\<not> list_ex (has_row i) (records_of s1) \<and> i \<notin> set (calls s1)"
  proof (cases "j = i")
    case True
    then have "s1 = st"
      using s1(1) process_row_oversized [OF assms(1,2)] by simp
    then show ?thesis
      using Cons.prems by simp
  next
    case False
    then show ?thesis
      using process_row_other [OF s1(1)] Cons.prems by simp
  qed
  then show ?case
    using Cons.IH [OF s1(2)] by simp
qed

lemma flushed_records:
  "(case flush (out_file st) (buffer st) of None \<Rightarrow> [] | Some old \<Rightarrow> old) = records_of st"
  by (simp add: flush_def records_of_def split: option.splits)

lemma process_file_never_has_row:
  assumes "iloc df i = Inr r" and "ctx * 4 < int (length (row_prompt e r))"
    and "process_file_row_sharded cfg e ctx fe df st = Inr st'"
    and "\<not> list_ex (has_row i) (case out_file st of None \<Rightarrow> [] | Some old \<Rightarrow> old)"
    and "i \<notin> set (calls st)"
  shows "\<not> list_ex (has_row i) (case out_file st' of None \<Rightarrow> [] | Some old \<Rightarrow> old)
         \<and> i \<notin> set (calls st')"
proof -
  from assms(3) obtain rows s1 where
    loop: "row_loop cfg e ctx fe df rows (st\<lparr>buffer := [], count := 0\<rparr>) = Inr s1"
    and st': "st' = write_rank_ckpt (s1\<lparr>out_file := flush (out_file s1) (buffer s1)\<rparr>)
                      (int (length rows))"
    by (auto simp: process_file_row_sharded_def Let_def split: sum.splits)
  have "\<not> list_ex (has_row i) (records_of (st\<lparr>buffer := [], count := 0\<rparr>))"
    using assms(4) by (simp add: records_of_def)
  moreover have "i \<notin> set (calls (st\<lparr>buffer := [], count := 0\<rparr>))"
    using assms(5) by simp
  ultimately have "\<not> list_ex (has_row i) (records_of s1) \<and> i \<notin> set (calls s1)"
    using row_loop_never_has_row [OF assms(1,2) loop] by simp
  then show ?thesis
    by (simp add: st' write_rank_ckpt_def flushed_records)
qed

text \<open>
  C10 (oversized prompts are dropped). For a row of the frame whose prompt is longer
  than \<open>ctx * 4\<close> characters, the loop body returns the state as it was: the backend
  is not called, nothing is buffered or written, the count does not move, and the
  loop goes on with the next row. Whatever rows a loop or a whole call goes through,
  if no record of that row and no call for it existed before, none exists after: a
  call that returns normally leaves the row out of the output file.
\<close>

theorem oversized_row_dropped:
  assumes "iloc df i = Inr r" and "ctx * 4 < int (length (row_prompt e r))"
  shows "process_row cfg e ctx fe df st i = Inr st
     \<and> row_loop cfg e ctx fe df (i # rest) st = row_loop cfg e ctx fe df rest st
     \<and> (\<forall>rows st'.
          row_loop cfg e ctx fe df rows st = Inr st'
          \<and> \<not> list_ex (has_row i) (records_of st) \<and> i \<notin> set (calls st)
          \<longrightarrow> \<not> list_ex (has_row i) (records_of st') \<and> i \<notin> set (calls st'))
     \<and> (\<forall>st'.
          process_file_row_sharded cfg e ctx fe df st = Inr st'
          \<and> \<not> list_ex (has_row i) (case out_file st of None \<Rightarrow> [] | Some old \<Rightarrow> old)
          \<and> i \<notin> set (calls st)
          \<longrightarrow> \<not> list_ex (has_row i) (case out_file st' of None \<Rightarrow> [] | Some old \<Rightarrow> old)
              \<and> i \<notin> set (calls st'))"
proof (intro conjI allI impI)
  show "process_row cfg e ctx fe df st i = Inr st"
    using assms by (rule process_row_oversized)
  then show "row_loop cfg e ctx fe df (i # rest) st = row_loop cfg e ctx fe df rest st"
    by simp
next
  fix rows st'
  assume "row_loop cfg e ctx fe df rows st = Inr st'
          \<and> \<not> list_ex (has_row i) (records_of st) \<and> i \<notin> set (calls st)"
  then show "\<not> list_ex (has_row i) (records_of st')" and "i \<notin> set (calls st')"
    using row_loop_never_has_row [OF assms] by blast+
next
  fix st'
  assume "process_file_row_sharded cfg e ctx fe df st = Inr st'
          \<and> \<not> list_ex (has_row i) (case out_file st of None \<Rightarrow> [] | Some old \<Rightarrow> old)
          \<and> i \<notin> set (calls st)"
  then show "\<not> list_ex (has_row i) (case out_file st' of None \<Rightarrow> [] | Some old \<Rightarrow> old)"
    and "i \<notin> set (calls st')"
    using process_file_never_has_row [OF assms] by blast+
qed

lemma infer_first_attempt:
  assumes "one_attempt cfg 1 (outcomes 1) = Done r"
  shows "llama_server_infer cfg outcomes = (0, r)"
proof -
  have "(1 :: nat) < max_attempts + 1"
    by (simp add: max_attempts_def)
  then have "attempts_loop cfg outcomes [1..<max_attempts + 1] 0 = (0, r)"
    using assms by (rule attempts_loop_done)
  then show ?thesis
    by (simp add: llama_server_infer_def)
qed

lemma one_attempt_ok:
  "one_attempt cfg a (Responds (ok_response c)) = Done (Inr c)"
  by (simp add: one_attempt_def ok_response_def message_content_def py_item_def py_item0_def)

lemma example_infer:
  "llama_server_infer cfg (backend example_env i) = (0, Inr (JStr ''x''))"
  by (rule infer_first_attempt) (simp add: example_env_def one_attempt_ok)

lemma example_parse:
  "parse_strict_json (loads example_env) (JStr ''x'') = Inl (ValueError ''No JSON found in model output'')"
  by (simp add: parse_strict_json_def final_json_match_def)

lemma katex_a: "katex_hygiene ''a'' = ''a''"
  by (simp add: katex_hygiene_def label_at_def starts_with_def py_strip_def py_isspace_def
      py_rstrip_chars_def)

lemma katex_b: "katex_hygiene ''bbbbbbbbbb'' = ''bbbbbbbbbb''"
  by (simp add: katex_hygiene_def label_at_def starts_with_def py_strip_def py_isspace_def
      py_rstrip_chars_def)

lemma example_rows: "my_rows 0 1 0 3 = Inr [0, 1, 2]"
  by (simp add: my_rows_def py_range_def range_len_def upt_rec)

lemma example_run:
  "process_file_row_sharded example_config example_env 2 20 example_df empty_state =
   Inr \<lparr>buffer = [degraded_record short_row (JStr ''x'') 0, degraded_record short_row (JStr ''x'') 2],
        count = 2,
        out_file = Some [degraded_record short_row (JStr ''x'') 0,
                         degraded_record short_row (JStr ''x'') 2],
        ckpt_file = Holds (dumps_row_offset 3),
        ckpt_log = [3], calls = [0, 2], slept = 0\<rparr>"
  by (simp add: process_file_row_sharded_def read_start_offset_def example_rows
      process_row_def iloc_def example_df_def short_row_def long_row_def empty_state_def
      example_config_def katex_a katex_b build_prompt_def example_infer example_parse
      buffer_record_def write_rank_ckpt_def flush_def degraded_record_def row_latex_raw_def Let_def
      example_env_def [THEN arg_cong [where f = prompt_head]]
      example_env_def [THEN arg_cong [where f = prompt_tail]])

theorem oversized_row_dropped_witness:
  "iloc example_df 1 = Inr long_row
   \<and> (2 :: int) * 4 < int (length (row_prompt example_env long_row))
   \<and> process_row example_config example_env 2 20 example_df empty_state 1 = Inr empty_state
   \<and> process_file_row_sharded example_config example_env 2 20 example_df empty_state =
       Inr \<lparr>buffer = [degraded_record short_row (JStr ''x'') 0,
                      degraded_record short_row (JStr ''x'') 2],
            count = 2,
            out_file = Some [degraded_record short_row (JStr ''x'') 0,
                             degraded_record short_row (JStr ''x'') 2],
            ckpt_file = Holds (dumps_row_offset 3),
            ckpt_log = [3], calls = [0, 2], slept = 0\<rparr>"
proof -
  have a: "iloc example_df 1 = Inr long_row"
    by (simp add: iloc_def example_df_def)
  have b: "(2 :: int) * 4 < int (length (row_prompt example_env long_row))"
    by (simp add: row_prompt_def build_prompt_def row_latex_raw_def long_row_def katex_b
        example_env_def)
  show ?thesis
    using a b oversized_row_dropped [OF a b, of example_config 20 empty_state "[]"] example_run
    by simp
qed



section \<open>Runs of the example batch\<close>

lemma iloc_example_batch:
  assumes "0 \<le> i" and "i < int n"
  shows "iloc (example_batch n) i = Inr short_row"
  using assms by (simp add: iloc_def example_batch_def)

lemma example_step:
  assumes "0 \<le> i" and "i < int n"
  shows "process_row cfg example_env 1024 fe (example_batch n) st i =
         Inr (buffer_record fe (st\<lparr>calls := calls st @ [i], slept := slept st + 0\<rparr>)
                (degraded_record short_row (JStr ''x'') i))"
proof (rule process_row_degraded)
  show "iloc (example_batch n) i = Inr short_row"
    using assms by (rule iloc_example_batch)
  show "\<not> 1024 * 4 < int (length (row_prompt example_env short_row))"
    by (simp add: row_prompt_def build_prompt_def row_latex_raw_def short_row_def katex_a
        example_env_def)
  show "llama_server_infer cfg (backend example_env i) = (0, Inr (JStr ''x''))"
    by (rule example_infer)
  show "parse_strict_json (loads example_env) (JStr ''x'')
        = Inl (ValueError ''No JSON found in model output'')"
    by (rule example_parse)
qed

lemma dumps_small:
  \<open>dumps_row_offset 0 = ''{"row_offset": 0}''\<close>
  \<open>dumps_row_offset 1 = ''{"row_offset": 1}''\<close>
  \<open>dumps_row_offset 20 = ''{"row_offset": 20}''\<close>
  \<open>dumps_row_offset 21 = ''{"row_offset": 21}''\<close>
  by (simp_all add: dumps_row_offset_def show_int_def show_nat.simps digit_char_def)

lemma loads_1: \<open>json_loads ''{"row_offset": 1}'' = Some (JObj [(''row_offset'', JInt 1)])\<close>
  by code_simp

lemma loads_21: \<open>json_loads ''{"row_offset": 21}'' = Some (JObj [(''row_offset'', JInt 21)])\<close>
  by code_simp

lemma read_1: \<open>read_start_offset json_loads (Holds ''{"row_offset": 1}'') = 1\<close>
  by (simp add: read_start_offset_def loads_1 py_get_def py_int_def)

lemma read_21: \<open>read_start_offset json_loads (Holds ''{"row_offset": 21}'') = 21\<close>
  by (simp add: read_start_offset_def loads_21 py_get_def py_int_def)

lemma length_example_batch: "length (example_batch n) = n"
  by (simp add: example_batch_def)

lemma loads_example_env: "loads example_env = json_loads"
  by (simp add: example_env_def)

lemma example_config_fields:
  "world_rank example_config = 0" "world_size example_config = 1"
  by (simp_all add: example_config_def)

lemma all_rows_21: "my_rows 0 1 0 21 = Inr (rows_0_to_19 @ [20])"
  by (simp add: my_rows_def py_range_def range_len_def upt_rec rows_0_to_19_def)

lemma resumed_rows: "my_rows 0 1 1 21 = Inr rows_1_to_20"
  by (simp add: my_rows_def py_range_def range_len_def upt_rec rows_1_to_20_def)

lemma no_rows_left: "my_rows 0 1 21 21 = Inr []"
  by (simp add: my_rows_def py_range_def range_len_def)

lemma first_call_crash:
  "row_loop example_config example_env 1024 flush_every (example_batch 21)
     rows_0_to_19 empty_state = Inr crash_state"
  by (simp add: rows_0_to_19_def crash_state_def example_record_def example_step
      buffer_record_def Let_def flush_every_def empty_state_def write_rank_ckpt_def
      flush_def dumps_small)

lemma second_call_after_crash:
  "process_file_row_sharded example_config example_env 1024 flush_every (example_batch 21)
     crash_state = Inr resumed_state"
  by (simp add: process_file_row_sharded_def loads_example_env length_example_batch
      example_config_fields crash_state_def read_1 resumed_rows
      rows_0_to_19_def rows_1_to_20_def resumed_state_def example_record_def example_step
      buffer_record_def Let_def flush_every_def write_rank_ckpt_def flush_def dumps_small)

lemma first_call_finished:
  "process_file_row_sharded example_config example_env 1024 flush_every (example_batch 21)
     empty_state = Inr finished_state"
  by (simp add: process_file_row_sharded_def loads_example_env length_example_batch
      example_config_fields empty_state_def read_start_offset_def all_rows_21
      rows_0_to_19_def finished_state_def example_record_def example_step
      buffer_record_def Let_def flush_every_def write_rank_ckpt_def flush_def dumps_small)

lemma second_call_after_finish:
  "process_file_row_sharded example_config example_env 1024 flush_every (example_batch 21)
     finished_state = Inr rerun_state"
  by (simp add: process_file_row_sharded_def loads_example_env length_example_batch
      example_config_fields finished_state_def read_21 no_rows_left
      rerun_state_def write_rank_ckpt_def flush_def dumps_small)

text \<open>
  C1 (no duplication on resume) does not hold of the code. One worker, 21 rows, flush
  threshold 20: after the first 20 iterations the rows 0 to 19 are in the output file
  and the checkpoint holds 1, the number of flushes. A call that starts from these
  files reads the offset 1, is assigned the rows 1 to 20, and writes the rows 1 to 19
  to the output file a second time.
\<close>

theorem resume_repeats_flushed_rows:
  "my_rows 0 1 0 21 = Inr (rows_0_to_19 @ [20])
   \<and> row_loop example_config example_env 1024 flush_every (example_batch 21)
        rows_0_to_19 empty_state = Inr crash_state
   \<and> out_file crash_state = Some (map example_record rows_0_to_19)
   \<and> read_start_offset json_loads (ckpt_file crash_state) = 1
   \<and> my_rows 0 1 1 21 = Inr rows_1_to_20
   \<and> process_file_row_sharded example_config example_env 1024 flush_every (example_batch 21)
        crash_state = Inr resumed_state
   \<and> out_file resumed_state = Some (map example_record (rows_0_to_19 @ rows_1_to_20))"
  using all_rows_21 first_call_crash resumed_rows second_call_after_crash read_1
  by (simp add: crash_state_def resumed_state_def)

text \<open>
  C2 (the scenario of 7 rows and 3 workers). With offset 0 the workers get the rows
  \<open>[0, 3, 6]\<close>, \<open>[1, 4]\<close> and \<open>[2, 5]\<close>. With threshold 2, worker 0 has flushed the
  rows 0 and 3 after two iterations and its checkpoint holds 1. Its rows computed from
  the offset 1 are \<open>[3, 6]\<close>, not \<open>[6]\<close>.
\<close>

theorem scenario_resume_offset:
  \<open>my_rows 0 3 0 7 = Inr [0, 3, 6]
   \<and> my_rows 1 3 0 7 = Inr [1, 4]
   \<and> my_rows 2 3 0 7 = Inr [2, 5]
   \<and> row_loop worker0_of3 example_env 1024 2 (example_batch 7) [0, 3] empty_state =
       Inr \<lparr>buffer = [], count = 2,
            out_file = Some [example_record 0, example_record 3],
            ckpt_file = Holds ''{"row_offset": 1}'',
            ckpt_log = [1], calls = [0, 3], slept = 0\<rparr>
   \<and> read_start_offset json_loads (Holds ''{"row_offset": 1}'') = 1
   \<and> my_rows 0 3 1 7 = Inr [3, 6]\<close>
  by (simp add: my_rows_def py_range_def range_len_def upt_rec read_1 example_record_def
      example_step buffer_record_def Let_def empty_state_def write_rank_ckpt_def flush_def
      dumps_small)

text \<open>
  C4 (checkpoint value invariant) does not hold of the code for the value written at
  the end of a call. One worker, 21 rows, flush threshold 20: the call writes the
  offset 1 at its first flush and the offset 21, the number of assigned rows, with its
  second and last flush. A second call on the files the first one left reads the
  offset 21, is assigned no row, and writes the offset 0: the values written for the
  batch are 1, 21, 0.
\<close>

theorem final_checkpoint_is_row_count:
  "process_file_row_sharded example_config example_env 1024 flush_every (example_batch 21)
     empty_state = Inr finished_state
   \<and> ckpt_log finished_state = [1, 21]
   \<and> read_start_offset json_loads (ckpt_file finished_state) = 21
   \<and> my_rows 0 1 21 21 = Inr []
   \<and> process_file_row_sharded example_config example_env 1024 flush_every (example_batch 21)
        finished_state = Inr rerun_state
   \<and> ckpt_log rerun_state = [1, 21, 0]"
  using first_call_finished second_call_after_finish read_21 no_rows_left
  by (simp add: finished_state_def rerun_state_def)

text \<open>
  In general the rows computed from an offset \<open>k\<close> are the rows of the worker without
  the first \<open>k\<close> of them, whatever the flush threshold.
\<close>

lemma resume_drops_rows:
  assumes "0 < W" and "0 \<le> k"
  shows "my_rows g W k N = Inr (drop (nat k) (projr (my_rows g W 0 N)))"
proof -
  let ?len = "range_len g N W"
  let ?len' = "range_len (g + k * W) N W"
  have len: "?len' = ?len - nat k"
  proof -
    have "j < ?len' \<longleftrightarrow> j < ?len - nat k" for j
    proof -
      have "j < ?len' \<longleftrightarrow> (g + k * W) + int j * W < N"
        using assms(1) by (rule range_len_less_iff)
      also have "\<dots> \<longleftrightarrow> g + int (nat k + j) * W < N"
        using assms(2) by (simp add: algebra_simps)
      also have "\<dots> \<longleftrightarrow> nat k + j < ?len"
        using range_len_less_iff [OF assms(1), of "nat k + j" g N] by simp
      also have "\<dots> \<longleftrightarrow> j < ?len - nat k"
        by linarith
      finally show ?thesis .
    qed
    then show ?thesis
      by (metis linorder_neqE_nat nat_neq_iff)
  qed
  have "drop (nat k) (map (\<lambda>i. g + int i * W) [0..<?len])
        = map (\<lambda>i. g + int i * W) [nat k..<?len]"
    by (simp add: drop_map)
  also have "\<dots> = map (\<lambda>i. g + int i * W) (map (\<lambda>j. nat k + j) [0..<?len - nat k])"
  proof (cases "nat k \<le> ?len")
    case True
    have "map (\<lambda>j. j + nat k) [0..<?len - nat k] = [nat k..<?len - nat k + nat k]"
      by (rule map_add_upt)
    then have "[nat k..<?len] = map (\<lambda>j. nat k + j) [0..<?len - nat k]"
      using True by (simp add: add.commute)
    then show ?thesis
      by simp
  next
    case False
    then show ?thesis
      by simp
  qed
  also have "\<dots> = map (\<lambda>j. (g + k * W) + int j * W) [0..<?len']"
    unfolding len using assms(2) by (simp add: algebra_simps)
  finally show ?thesis
    using assms(1) by (simp add: my_rows_pos)
qed

section \<open>The checkpoint values of one call\<close>

lemma upt_div_step:
  assumes "0 < fe"
  shows "[a div fe + 1..<(a + 1) div fe + 1]
         = (if (a + 1) mod fe = 0 then [(a + 1) div fe] else [])"
proof -
  have "(a + 1) div fe = (if (a + 1) mod fe = 0 then a div fe + 1 else a div fe)"
    using div_Suc [of a fe] by simp
  then show ?thesis
    by auto
qed

lemma ckpt_log_buffer_record:
  "ckpt_log (buffer_record fe st rec)
   = ckpt_log st @ (if (count st + 1) mod fe = 0 then [int ((count st + 1) div fe)] else [])"
  by (simp add: buffer_record_def write_rank_ckpt_def Let_def)

lemma process_row_counts:
  assumes "process_row cfg e ctx fe df st i = Inr st'" and "0 < fe"
  shows "count st \<le> count st' \<and> count st' \<le> count st + 1
         \<and> ckpt_log st' = ckpt_log st @ map int [count st div fe + 1..<count st' div fe + 1]"
proof -
  have keep: "ckpt_log st = ckpt_log st @ map int [count st div fe + 1..<count st div fe + 1]"
    by simp
  have step: "count (buffer_record fe s rec) = count st + 1
      \<and> ckpt_log (buffer_record fe s rec)
        = ckpt_log st @ map int [count st div fe + 1..<(count st + 1) div fe + 1]"
    if "count s = count st" "ckpt_log s = ckpt_log st" for s rec
    using that upt_div_step [OF assms(2), of "count st"]
    by (simp add: count_buffer_record ckpt_log_buffer_record)
  have upd: "count (st\<lparr>calls := cs, slept := n\<rparr>) = count st"
      "ckpt_log (st\<lparr>calls := cs, slept := n\<rparr>) = ckpt_log st" for cs n
    by simp_all
  show ?thesis
    using assms(1) step [OF upd] keep
    by (auto simp: process_row_def Let_def split: sum.splits if_splits prod.splits)
qed

lemma row_loop_counts:
  assumes "row_loop cfg e ctx fe df rows st = Inr st'" and "0 < fe"
  shows "count st \<le> count st' \<and> count st' \<le> count st + length rows
         \<and> ckpt_log st' = ckpt_log st @ map int [count st div fe + 1..<count st' div fe + 1]"
  using assms(1)
proof (induction rows arbitrary: st)
  case Nil
  then show ?case by simp
next
  case (Cons i rows)
  from Cons.prems obtain s1 where s1: "process_row cfg e ctx fe df st i = Inr s1"
      "row_loop cfg e ctx fe df rows s1 = Inr st'"
    by (auto split: sum.splits)
  note a = process_row_counts [OF s1(1) assms(2)]
  note b = Cons.IH [OF s1(2)]
  have mono: "count st div fe + 1 \<le> count s1 div fe + 1"
      "count s1 div fe + 1 \<le> count st' div fe + 1"
    using a b by (simp_all add: div_le_mono)
  have "[count st div fe + 1..<count st' div fe + 1]
        = [count st div fe + 1..<count s1 div fe + 1] @ [count s1 div fe + 1..<count st' div fe + 1]"
    using mono by (metis le_Suc_ex upt_add_eq_append)
  then show ?case
    using a b by simp
qed

text \<open>
  The offsets one call writes: the running flush count \<open>1, ..., m\<close> inside the loop,
  then the number of assigned rows.
\<close>

lemma process_file_checkpoints:
  assumes "process_file_row_sharded cfg e ctx fe df st0 = Inr st'" and "0 < fe"
  shows "\<exists>rows m.
           my_rows (world_rank cfg) (world_size cfg)
             (read_start_offset (loads e) (ckpt_file st0)) (int (length df)) = Inr rows
           \<and> m * fe \<le> length rows
           \<and> ckpt_log st' = ckpt_log st0 @ map int [1..<m + 1] @ [int (length rows)]"
proof -
  from assms(1) obtain rows s1 where
    rows: "my_rows (world_rank cfg) (world_size cfg)
             (read_start_offset (loads e) (ckpt_file st0)) (int (length df)) = Inr rows"
    and loop: "row_loop cfg e ctx fe df rows (st0\<lparr>buffer := [], count := 0\<rparr>) = Inr s1"
    and st': "st' = write_rank_ckpt (s1\<lparr>out_file := flush (out_file s1) (buffer s1)\<rparr>)
                      (int (length rows))"
    by (auto simp: process_file_row_sharded_def Let_def split: sum.splits)
  from row_loop_counts [OF loop assms(2)]
  have c: "count s1 \<le> length rows"
    and l: "ckpt_log s1 = ckpt_log st0 @ map int [1..<count s1 div fe + 1]"
    by simp_all
  have "(count s1 div fe) * fe \<le> count s1"
    by simp
  with c have "(count s1 div fe) * fe \<le> length rows"
    by linarith
  moreover have "ckpt_log st' = ckpt_log st0 @ map int [1..<count s1 div fe + 1] @ [int (length rows)]"
    using l by (simp add: st' write_rank_ckpt_def)
  ultimately show ?thesis
    using rows by blast
qed

section \<open>Responses of the backend, case by case\<close>

lemma other_status_is_fatal:
  assumes "status_code resp \<noteq> 200" and "status_code resp \<noteq> 503"
  shows "one_attempt cfg a (Responds resp) =
         Done (Inl (RuntimeError
           (HttpStatus (world_rank cfg) (status_code resp) (error_payload resp))))"
  using assms by (simp add: one_attempt_def)

lemma unavailable_without_message_is_fatal:
  assumes "status_code resp = 503"
    and "py_in ''Loading model'' (loading_message resp) = Inr False"
  shows "one_attempt cfg a (Responds resp) =
         Done (Inl (RuntimeError
           (HttpStatus (world_rank cfg) (status_code resp) (error_payload resp))))"
  using assms by (simp add: one_attempt_def)

lemma unavailable_odd_message_leaks:
  assumes "status_code resp = 503"
    and "py_in ''Loading model'' (loading_message resp) = Inl err"
  shows "one_attempt cfg a (Responds resp) = Done (Inl err)"
  using assms by (simp add: one_attempt_def)

lemma loads_null_message:
  "json_loads (resp_text null_message_response) = resp_json null_message_response"
  unfolding null_message_response_def by code_simp

text \<open>
  C6 (backend response classification) does not hold of the code for a 503 whose
  body has a value under \<^verbatim>\<open>error.message\<close> that is neither a string, a list nor an
  object: the membership test \<^verbatim>\<open>"Loading model" in msg\<close> stands outside the
  \<^verbatim>\<open>try\<close>, and the call raises its \<^verbatim>\<open>TypeError\<close> at the first attempt, an error that
  carries neither the status nor the payload.
\<close>

theorem null_message_raises_type_error:
  "json_loads (resp_text null_message_response) = resp_json null_message_response
   \<and> status_code null_message_response = 503
   \<and> llama_server_infer example_config (\<lambda>attempt. Responds null_message_response)
       = (0, Inl TypeError)"
proof (intro conjI)
  show "json_loads (resp_text null_message_response) = resp_json null_message_response"
    by (rule loads_null_message)
  show "status_code null_message_response = 503"
    by (simp add: null_message_response_def)
  show "llama_server_infer example_config (\<lambda>attempt. Responds null_message_response)
        = (0, Inl TypeError)"
  proof (rule infer_first_attempt)
    show "one_attempt example_config 1 (Responds null_message_response) = Done (Inl TypeError)"
      by (simp add: one_attempt_def null_message_response_def loading_message_def py_get_def
          py_in_def)
  qed
qed

section \<open>Texts handed to the validator\<close>

lemma no_open_brace:
  assumes "CHR ''{'' \<notin> set s"
  shows "parse_strict_json dec (JStr s) = Inl (ValueError ''No JSON found in model output'')"
proof -
  have none: "dropWhile (\<lambda>c. c \<noteq> CHR ''{'') s = []"
    using assms by (induction s) auto
  show ?thesis
    using none
    by (simp add: parse_strict_json_def final_json_match_def del: dropWhile_eq_Nil_conv)
qed

lemma schema_violation:
  assumes "final_json_match s = Some m" and "dec m = Some obj"
    and "\<not> conforms PURE_MATH_JSON_SCHEMA obj"
  shows "parse_strict_json dec (JStr s) = Inl ValidationError"
  using assms by (simp add: parse_strict_json_def)

lemma conforms_object_keys:
  assumes "conforms (SObject req props) v"
  shows "\<exists>kvs. v = JObj kvs \<and> set req \<subseteq> fst ` set kvs \<and> fst ` set kvs \<subseteq> fst ` set props"
  using assms by (cases v) (auto simp: list_all_iff)

lemma match_after_plain_prefix:
  assumes "CHR ''{'' \<notin> set p" and "list_all py_isspace ws"
  shows "final_json_match (p @ CHR ''{'' # body @ CHR ''}'' # ws)
         = Some (CHR ''{'' # body @ CHR ''}'' # ws)"
proof -
  have "dropWhile (\<lambda>c. c \<noteq> CHR ''{'') (p @ CHR ''{'' # body @ CHR ''}'' # ws)
        = CHR ''{'' # body @ CHR ''}'' # ws"
    using assms(1) by (induction p) auto
  moreover have "dropWhile py_isspace (rev (body @ CHR ''}'' # ws)) = CHR ''}'' # rev body"
  proof -
    have "\<not> py_isspace CHR ''}''"
      by (simp add: py_isspace_def)
    moreover have "\<forall>c\<in>set (rev ws). py_isspace c"
      using assms(2) by (simp add: list_all_iff)
    ultimately show ?thesis
      by (simp add: dropWhile_append3 dropWhile_append2)
  qed
  ultimately show ?thesis
    by (simp add: final_json_match_def)
qed

lemma loads_valid_output: "json_loads valid_output = Some valid_object"
  unfolding valid_output_def valid_object_def by code_simp

lemma loads_prefixed: "json_loads (''{2}: '' @ valid_output) = None"
  unfolding valid_output_def by code_simp

lemma conforms_valid_object: "conforms PURE_MATH_JSON_SCHEMA valid_object"
  by (simp add: PURE_MATH_JSON_SCHEMA_def EQUIV_FORM_SCHEMA_def valid_object_def)

lemma match_valid_output: "final_json_match valid_output = Some valid_output"
  by (simp add: final_json_match_def valid_output_def py_isspace_def)

lemma match_chatty_output:
  "final_json_match chatty_output = Some (''{2}: '' @ valid_output)"
  by (simp add: final_json_match_def chatty_output_def valid_output_def py_isspace_def)

text \<open>
  C7 (validator round-trip) does not hold of the code for a text that ends in a valid
  instance of the schema after an earlier opening brace. The instance alone parses
  and validates. After the remark \<^verbatim>\<open>x^{2}: \<close> the match of the regular expression
  starts at the brace of the remark, the decoder is handed \<^verbatim>\<open>{2}: \<close> followed by the
  instance, and \<^verbatim>\<open>parse_strict_json\<close> raises the decoder's error.
\<close>

theorem earlier_brace_breaks_parse:
  "parse_strict_json json_loads (JStr valid_output) = Inr valid_object
   \<and> final_json_match chatty_output = Some (''{2}: '' @ valid_output)
   \<and> json_loads (''{2}: '' @ valid_output) = None
   \<and> parse_strict_json json_loads (JStr chatty_output) = Inl JSONDecodeError"
  unfolding parse_strict_json_def json.case match_valid_output match_chatty_output
    loads_valid_output loads_prefixed option.case
  by (simp add: conforms_valid_object)

section \<open>What the loop body can raise\<close>

lemma py_item_present:
  assumes "k \<in> fst ` set kvs"
  shows "\<exists>v. py_item (JObj kvs) k = Inr v \<and> map_of kvs k = Some v"
proof -
  from assms obtain v where "map_of kvs k = Some v"
    by (metis domD dom_map_of_conv_image_fst)
  then show ?thesis
    by (simp add: py_item_def)
qed

lemma conforms_structured:
  assumes "conforms PURE_MATH_JSON_SCHEMA obj"
  shows "py_truthy obj \<and> (\<exists>extra. structured_fields obj = Inr extra)"
proof -
  obtain props where
    "PURE_MATH_JSON_SCHEMA = SObject [''input'', ''analysis'', ''equivalents''] props"
    by (simp add: PURE_MATH_JSON_SCHEMA_def)
  then have "conforms (SObject [''input'', ''analysis'', ''equivalents''] props) obj"
    using assms by simp
  from conforms_object_keys [OF this] obtain kvs where obj: "obj = JObj kvs"
    and keys: "{''input'', ''analysis'', ''equivalents''} \<subseteq> fst ` set kvs"
    by auto
  then have truthy: "py_truthy obj"
    by (auto simp: py_truthy_def)
  obtain a where a: "py_item obj ''analysis'' = Inr a" "map_of kvs ''analysis'' = Some a"
    using py_item_present [of "''analysis''" kvs] keys obj by auto
  obtain q where q: "py_item obj ''equivalents'' = Inr q" "map_of kvs ''equivalents'' = Some q"
    using py_item_present [of "''equivalents''" kvs] keys obj by auto
  have ca: "conforms (SObject [''math_keywords'', ''math_sentence'', ''katex'']
             [(''math_keywords'', SArray (SString 0) (Some 10)),
              (''math_sentence'', SString 1),
              (''katex'', SString 1)]) a"
    using assms obj a(2) by (simp add: PURE_MATH_JSON_SCHEMA_def)
  have cq: "conforms (SObject [''equiv_form_1'', ''equiv_form_2'']
             [(''equiv_form_1'', EQUIV_FORM_SCHEMA),
              (''equiv_form_2'', EQUIV_FORM_SCHEMA)]) q"
    using assms obj q(2) by (simp add: PURE_MATH_JSON_SCHEMA_def)
  from conforms_object_keys [OF ca] obtain akvs where akvs: "a = JObj akvs"
      "{''math_keywords'', ''math_sentence'', ''katex''} \<subseteq> fst ` set akvs"
    by auto
  from conforms_object_keys [OF cq] obtain qkvs where qkvs: "q = JObj qkvs"
      "{''equiv_form_1'', ''equiv_form_2''} \<subseteq> fst ` set qkvs"
    by auto
  obtain kw where kw: "py_item a ''math_keywords'' = Inr kw"
    using py_item_present [of "''math_keywords''" akvs] akvs by auto
  obtain ms where ms: "py_item a ''math_sentence'' = Inr ms"
    using py_item_present [of "''math_sentence''" akvs] akvs by auto
  obtain kx where kx: "py_item a ''katex'' = Inr kx"
    using py_item_present [of "''katex''" akvs] akvs by auto
  obtain e1 where e1: "py_item q ''equiv_form_1'' = Inr e1"
    using py_item_present [of "''equiv_form_1''" qkvs] qkvs by auto
  obtain e2 where e2: "py_item q ''equiv_form_2'' = Inr e2"
    using py_item_present [of "''equiv_form_2''" qkvs] qkvs by auto
  have "\<exists>extra. structured_fields obj = Inr extra"
    by (simp add: structured_fields_def a q kw ms kx e1 e2)
  with truthy show ?thesis
    by simp
qed

lemma parse_strict_json_conforms:
  assumes "parse_strict_json dec content = Inr parsed"
  shows "conforms PURE_MATH_JSON_SCHEMA parsed"
  using assms
  by (auto simp: parse_strict_json_def split: json.splits option.splits if_splits)

text \<open>The loop body raises only when the row index is outside the frame.\<close>

lemma process_row_total:
  assumes "iloc df i = Inr r"
  shows "\<exists>st'. process_row cfg e ctx fe df st i = Inr st'"
proof (cases "ctx * 4 < int (length (row_prompt e r))")
  case True
  with assms show ?thesis
    by (simp add: process_row_def row_prompt_def row_latex_raw_def Let_def)
next
  case False
  obtain n res where res: "llama_server_infer cfg (backend e i) = (n, res)"
    by (cases "llama_server_infer cfg (backend e i)")
  show ?thesis
  proof (cases res)
    case (Inl err)
    with assms False res show ?thesis
      by (simp add: process_row_def row_prompt_def row_latex_raw_def Let_def)
  next
    case (Inr content)
    show ?thesis
    proof (cases "parse_strict_json (loads e) content")
      case (Inl err)
      with assms False res Inr show ?thesis
        by (simp add: process_row_def row_prompt_def row_latex_raw_def Let_def)
    next
      case parsed: (Inr parsed)
      then have "py_truthy parsed \<and> (\<exists>extra. structured_fields parsed = Inr extra)"
        using parse_strict_json_conforms conforms_structured by blast
      then obtain extra where "py_truthy parsed" "structured_fields parsed = Inr extra"
        by blast
      with assms False res Inr parsed show ?thesis
        by (simp add: process_row_def row_prompt_def row_latex_raw_def Let_def)
    qed
  qed
qed

end
